theory Spec2Isabelle
  imports Complex_Main "HOL-Library.Char_ord" "HOL-Library.List_Lexorder"
    "HOL-Library.Sublist" "HOL-Library.Multiset"
begin

section \<open>The catalogue add-on (src/addon.js)\<close>

text \<open>
  A shallow embedding of the catalog handler of \<^verbatim>\<open>src/addon.js\<close> and of the helpers it
  calls: \<^verbatim>\<open>getLanguageLabel\<close>, \<^verbatim>\<open>getIMDBId\<close>, \<^verbatim>\<open>hasHindiAudio\<close>, \<^verbatim>\<open>formatReleaseDate\<close>,
  \<^verbatim>\<open>formatMovie\<close>, \<^verbatim>\<open>formatSeries\<close> and the function given to \<^verbatim>\<open>defineCatalogHandler\<close>.

  How the JavaScript is read:
  \<^item> A field that may be \<^verbatim>\<open>undefined\<close> or \<^verbatim>\<open>null\<close> is an \<open>option\<close>; a string is falsy when it
    is absent or empty, a number when it is absent or zero.
  \<^item> Numbers are the integers they denote (offsets, page numbers, counts, seconds); a
    rating is the rational number the double stands for.
  \<^item> The upstream API, the clock and the two host facilities that depend on the machine
    (today's date in IST, and the day, month and year that \<^verbatim>\<open>new Date(s)\<close> shows in the
    host's time zone) are fields of an environment record. An upstream call that throws
    (network error, timeout, error status) answers \<open>None\<close>.
  \<^item> Every effect of a function is returned as a list of events: the upstream calls it
    issued and the \<^verbatim>\<open>cache.set\<close> calls it made. The caller applies the events to the cache
    before it goes on, so a later stage reads what an earlier one stored.
  \<^item> \<^verbatim>\<open>Promise.all(xs.map(f))\<close> starts every \<open>f x\<close> before any of them resumes: each task
    reads the cache as it was when the batch started, and the stores happen afterwards.
  \<^item> The one \<^verbatim>\<open>NodeCache\<close> holds four families of keys, \<^verbatim>\<open>imdb_<type>_<id>\<close>,
    \<^verbatim>\<open>hindi_<id>\<close>, \<^verbatim>\<open>ps_<base>\<close> and \<^verbatim>\<open><base>_p<page>\<close>, each with its own type of value.
    The model keeps one store per family, keyed by the parts the template is built from;
    \<open>base\<close> is the string the source builds. For the three catalog ids of the manifest
    the four templates never produce the same string. The cache's bound on the number
    of keys and its periodic sweep belong to the library and are not modelled: a store
    always succeeds, and an entry is dropped exactly when its time to live has passed.
  \<^item> One request takes no time: the clock is read once per request.
\<close>

subsection \<open>JavaScript values\<close>

definition truthy :: "string option \<Rightarrow> bool" where
  "truthy v = (case v of None \<Rightarrow> False | Some s \<Rightarrow> s \<noteq> [])"

text \<open>\<^verbatim>\<open>a || b\<close> on strings, where \<open>b\<close> is a string.\<close>

definition or_str :: "string option \<Rightarrow> string \<Rightarrow> string" where
  "or_str a b = (case a of None \<Rightarrow> b | Some s \<Rightarrow> if s = [] then b else s)"

text \<open>\<^verbatim>\<open>formatted.filter(Boolean)\<close> on a list of objects and \<^verbatim>\<open>null\<close>s.\<close>

primrec filter_Boolean :: "'a option list \<Rightarrow> 'a list" where
  "filter_Boolean [] = []"
| "filter_Boolean (x # xs) = (case x of None \<Rightarrow> filter_Boolean xs | Some y \<Rightarrow> y # filter_Boolean xs)"

text \<open>\<^verbatim>\<open>xs.filter((_, idx) => checks[idx])\<close> where \<open>checks\<close> is as long as \<open>xs\<close>.\<close>

definition filter_by :: "'a list \<Rightarrow> bool list \<Rightarrow> 'a list" where
  "filter_by xs checks = map fst (filter snd (zip xs checks))"

text \<open>Decimal digits of a natural number, as \<^verbatim>\<open>String(n)\<close> prints them.\<close>

fun show_nat :: "nat \<Rightarrow> string" where
  "show_nat n = (if n < 10 then [char_of (48 + n)] else show_nat (n div 10) @ [char_of (48 + n mod 10)])"

text \<open>
  \<^verbatim>\<open>x.toFixed(1)\<close>: the integer \<open>n\<close> nearest to \<open>10 * x\<close>, the larger one on a tie, printed
  with one decimal (for \<open>x\<close> below \<open>10^21\<close>; ratings are between 0 and 10).
\<close>

definition toFixed1 :: "rat \<Rightarrow> string" where
  "toFixed1 x =
     (let n = nat \<lfloor>\<bar>x\<bar> * 10 + 1 / 2\<rfloor>
      in (if x < 0 then ''-'' else '''') @ show_nat (n div 10) @ ''.'' @ show_nat (n mod 10))"

text \<open>\<^verbatim>\<open>s.toUpperCase()\<close> on ASCII letters (language codes are ISO 639-1).\<close>

definition toUpperCase :: "string \<Rightarrow> string" where
  "toUpperCase s =
     map (\<lambda>c. if CHR ''a'' \<le> c \<and> c \<le> CHR ''z'' then char_of (of_char c - (32::nat)) else c) s"

text \<open>
  \<^verbatim>\<open>a.localeCompare(b)\<close>, read as the comparison of the two strings character by
  character. On dates written \<^verbatim>\<open>YYYY-MM-DD\<close> and on the empty string, the only values the
  handler sorts by, every locale orders the same way.
\<close>

definition localeCompare :: "string \<Rightarrow> string \<Rightarrow> int" where
  "localeCompare a b = (if a < b then - 1 else if a = b then 0 else 1)"

text \<open>
  \<^verbatim>\<open>xs.sort(cmp)\<close>: the sort of the runtime is stable, and for a comparator that is a
  total preorder every stable sort returns the same list; this one inserts from the right.
\<close>

fun insert_cmp :: "('a \<Rightarrow> 'a \<Rightarrow> int) \<Rightarrow> 'a \<Rightarrow> 'a list \<Rightarrow> 'a list" where
  "insert_cmp cmp x [] = [x]"
| "insert_cmp cmp x (y # ys) = (if cmp x y \<le> 0 then x # y # ys else y # insert_cmp cmp x ys)"

definition sort_cmp :: "('a \<Rightarrow> 'a \<Rightarrow> int) \<Rightarrow> 'a list \<Rightarrow> 'a list" where
  "sort_cmp cmp xs = foldr (insert_cmp cmp) xs []"

subsection \<open>Data\<close>

text \<open>A record of an upstream result list (a movie or a series).\<close>

record raw_item =
  item_id :: nat
  poster_path :: "string option"
  backdrop_path :: "string option"
  original_language :: "string option"
  vote_average :: "rat option"
  overview :: "string option"
  title :: "string option"
  original_title :: "string option"
  release_date :: "string option"
  name :: "string option"
  original_name :: "string option"
  first_air_date :: "string option"

text \<open>
  The part of an item's detail that \<^verbatim>\<open>hasHindiAudio\<close> reads: the original language, the
  \<^verbatim>\<open>iso_639_1\<close> codes of \<^verbatim>\<open>translations.translations\<close> and the \<^verbatim>\<open>iso_3166_1\<close> codes of
  \<^verbatim>\<open>release_dates.results\<close>.
\<close>

record detail =
  detail_language :: "string option"
  detail_translations :: "string list option"
  detail_release_dates :: "string list option"

text \<open>A formatted item, as the client receives it.\<close>

record meta =
  meta_id :: string
  meta_type :: string
  meta_name :: string
  poster :: string
  posterShape :: string
  background :: "string option"
  description :: string
  releaseInfo :: "string option"
  imdbRating :: string
  language :: string

text \<open>
  The list queries of the handler. \<open>DiscoverMovie d l r v p\<close> is the call to
  \<^verbatim>\<open>discover/movie\<close> with \<^verbatim>\<open>primary_release_date.lte = d\<close>, \<^verbatim>\<open>with_original_language = l\<close>,
  \<^verbatim>\<open>region = r\<close>, \<^verbatim>\<open>vote_count.gte = v\<close> and \<^verbatim>\<open>page = p\<close> (release type and sort key
  are the same in every call); \<open>DiscoverTv d v p\<close> is the call to \<^verbatim>\<open>discover/tv\<close> with
  \<^verbatim>\<open>first_air_date.lte = d\<close>, \<^verbatim>\<open>vote_count.gte = v\<close> and \<^verbatim>\<open>page = p\<close> (original language
  \<^verbatim>\<open>en\<close> and the sort key are fixed). \<open>SearchMovie s p\<close> and \<open>SearchTv s p\<close> are the calls to
  \<^verbatim>\<open>search/movie\<close> and \<^verbatim>\<open>search/tv\<close> with \<^verbatim>\<open>query = s\<close> and \<^verbatim>\<open>page = p\<close>.
\<close>

datatype list_query =
    SearchMovie string int
  | SearchTv string int
  | DiscoverMovie string string string string int
  | DiscoverTv string string int

record env =
  clock :: nat
  todayIST :: string
  date_dmy :: "string \<Rightarrow> string"
  list_results :: "list_query \<Rightarrow> raw_item list option option"
  external_ids :: "string \<Rightarrow> nat \<Rightarrow> string option option"
  movie_detail :: "nat \<Rightarrow> detail option"

datatype event =
    Fetch list_query
  | FetchExternalIds string nat
  | FetchDetail nat
  | SetImdb "string \<times> nat" "string option" nat
  | SetHindi nat bool nat
  | SetPage "string \<times> int" "meta list" nat
  | SetPageSize string nat nat

datatype error = UpstreamError

subsection \<open>The cache\<close>

text \<open>
  An entry is a value and the time at which it expires. \<^verbatim>\<open>cache.get\<close> answers \<open>None\<close>
  (\<^verbatim>\<open>undefined\<close>) for a key that is absent or expired; a stored \<^verbatim>\<open>null\<close> or \<^verbatim>\<open>false\<close> is
  a value like any other.
\<close>

definition cache_get :: "nat \<Rightarrow> ('k \<rightharpoonup> 'v \<times> nat) \<Rightarrow> 'k \<Rightarrow> 'v option" where
  "cache_get now store k =
     (case store k of None \<Rightarrow> None | Some (v, expires) \<Rightarrow> if expires < now then None else Some v)"

definition cache_set :: "nat \<Rightarrow> ('k \<rightharpoonup> 'v \<times> nat) \<Rightarrow> 'k \<Rightarrow> 'v \<Rightarrow> nat \<Rightarrow> ('k \<rightharpoonup> 'v \<times> nat)" where
  "cache_set now store k v ttl = store(k \<mapsto> (v, now + ttl))"

record cache =
  imdb_ids :: "string \<times> nat \<rightharpoonup> string option \<times> nat"
  hindi :: "nat \<rightharpoonup> bool \<times> nat"
  pages :: "string \<times> int \<rightharpoonup> meta list \<times> nat"
  page_sizes :: "string \<rightharpoonup> nat \<times> nat"

definition empty_cache :: cache where
  "empty_cache = \<lparr>imdb_ids = Map.empty, hindi = Map.empty, pages = Map.empty, page_sizes = Map.empty\<rparr>"

definition stdTTL :: nat where
  "stdTTL = 1800"

fun apply_event :: "nat \<Rightarrow> event \<Rightarrow> cache \<Rightarrow> cache" where
  "apply_event now (SetImdb k v ttl) c = c\<lparr>imdb_ids := cache_set now (imdb_ids c) k v ttl\<rparr>"
| "apply_event now (SetHindi k v ttl) c = c\<lparr>hindi := cache_set now (hindi c) k v ttl\<rparr>"
| "apply_event now (SetPage k v ttl) c = c\<lparr>pages := cache_set now (pages c) k v ttl\<rparr>"
| "apply_event now (SetPageSize k v ttl) c = c\<lparr>page_sizes := cache_set now (page_sizes c) k v ttl\<rparr>"
| "apply_event now (Fetch q) c = c"
| "apply_event now (FetchExternalIds e i) c = c"
| "apply_event now (FetchDetail i) c = c"

definition apply_events :: "nat \<Rightarrow> event list \<Rightarrow> cache \<Rightarrow> cache" where
  "apply_events now evs c = fold (apply_event now) evs c"

definition promise_all :: "('a \<Rightarrow> 'b \<times> event list) \<Rightarrow> 'a list \<Rightarrow> 'b list \<times> event list" where
  "promise_all task xs = (map (\<lambda>x. fst (task x)) xs, concat (map (\<lambda>x. snd (task x)) xs))"

subsection \<open>Helpers\<close>

definition getLanguageLabel :: "string \<Rightarrow> string" where
  "getLanguageLabel lang =
     (case map_of [(''hi'', ''Hindi''), (''en'', ''English''), (''ta'', ''Tamil''), (''te'', ''Telugu''),
                   (''ml'', ''Malayalam''), (''kn'', ''Kannada''), (''mr'', ''Marathi''),
                   (''bn'', ''Bengali''), (''pa'', ''Punjabi'')] lang of
        Some label \<Rightarrow> label
      | None \<Rightarrow> toUpperCase lang)"

definition getIMDBId :: "env \<Rightarrow> cache \<Rightarrow> nat \<Rightarrow> string \<Rightarrow> string option \<times> event list" where
  "getIMDBId E c tmdbId type =
     (let cacheKey = (type, tmdbId) in
      case cache_get (clock E) (imdb_ids c) cacheKey of
        Some cached \<Rightarrow> (cached, [])
      | None \<Rightarrow>
          (let endpoint = (if type = ''series'' then ''tv'' else ''movie'') in
           case external_ids E endpoint tmdbId of
             Some imdb_id \<Rightarrow>
               (let imdbId = (if truthy imdb_id then imdb_id else None)
                in (imdbId, [FetchExternalIds endpoint tmdbId, SetImdb cacheKey imdbId 86400]))
           | None \<Rightarrow> (None, [FetchExternalIds endpoint tmdbId, SetImdb cacheKey None 3600])))"

definition hasHindiAudio :: "env \<Rightarrow> cache \<Rightarrow> nat \<Rightarrow> bool \<times> event list" where
  "hasHindiAudio E c movieId =
     (case cache_get (clock E) (hindi c) movieId of
        Some cached \<Rightarrow> (cached, [])
      | None \<Rightarrow>
          (case movie_detail E movieId of
             Some d \<Rightarrow>
               (if detail_language d = Some ''hi''
                then (True, [FetchDetail movieId, SetHindi movieId True 86400])
                else let hasHindiTrans = (''hi'' \<in> set (case detail_translations d of None \<Rightarrow> [] | Some ts \<Rightarrow> ts))
                  in if hasHindiTrans
                     then (True, [FetchDetail movieId, SetHindi movieId True 86400])
                     else let indiaRelease = find (\<lambda>r. r = ''IN'') (case detail_release_dates d of None \<Rightarrow> [] | Some rs \<Rightarrow> rs)
                       in if indiaRelease \<noteq> None
                          then (True, [FetchDetail movieId, SetHindi movieId True 86400])
                          else (False, [FetchDetail movieId, SetHindi movieId False 3600]))
           | None \<Rightarrow> (False, [FetchDetail movieId, SetHindi movieId False 3600])))"

definition formatReleaseDate :: "env \<Rightarrow> string option \<Rightarrow> string option" where
  "formatReleaseDate E dateStr = (case dateStr of None \<Rightarrow> None | Some s \<Rightarrow> if s = [] then None else Some (date_dmy E s))"

definition formatMovie :: "env \<Rightarrow> cache \<Rightarrow> raw_item \<Rightarrow> meta option \<times> event list" where
  "formatMovie E c movie =
     (case poster_path movie of
        None \<Rightarrow> (None, [])
      | Some posterPath \<Rightarrow>
          if posterPath = [] then (None, [])
          else let tmdbId = item_id movie in
            if tmdbId = 0 then (None, [])
            else let (imdbId, evs) = getIMDBId E c tmdbId ''movie'' in
              (case imdbId of
                 None \<Rightarrow> (None, evs)
               | Some i \<Rightarrow>
                   if i = [] then (None, evs)
                   else
                     (let langLabel = getLanguageLabel (or_str (original_language movie) '''');
                          rating = (case vote_average movie of None \<Rightarrow> ''''
                                    | Some v \<Rightarrow> if v = 0 then '''' else toFixed1 v);
                          releaseDate = formatReleaseDate E (release_date movie)
                      in (Some \<lparr>meta_id = i,
                                meta_type = ''movie'',
                                meta_name = or_str (title movie) (or_str (original_title movie) ''Unknown''),
                                poster = ''https://image.tmdb.org/t/p/w500'' @ posterPath,
                                posterShape = ''poster'',
                                background = (if truthy (backdrop_path movie)
                                              then Some (''https://image.tmdb.org/t/p/original'' @ or_str (backdrop_path movie) '''')
                                              else None),
                                description = or_str (overview movie) ''No description'',
                                releaseInfo = (if truthy releaseDate then releaseDate
                                               else if truthy (release_date movie)
                                               then Some (take 4 (or_str (release_date movie) ''''))
                                               else None),
                                imdbRating = rating,
                                language = langLabel\<rparr>, evs))))"

definition formatSeries :: "env \<Rightarrow> cache \<Rightarrow> raw_item \<Rightarrow> meta option \<times> event list" where
  "formatSeries E c series =
     (case poster_path series of
        None \<Rightarrow> (None, [])
      | Some posterPath \<Rightarrow>
          if posterPath = [] then (None, [])
          else let tmdbId = item_id series in
            if tmdbId = 0 then (None, [])
            else let (imdbId, evs) = getIMDBId E c tmdbId ''series'' in
              (case imdbId of
                 None \<Rightarrow> (None, evs)
               | Some i \<Rightarrow>
                   if i = [] then (None, evs)
                   else
                     (let langLabel = getLanguageLabel (or_str (original_language series) '''');
                          rating = (case vote_average series of None \<Rightarrow> ''''
                                    | Some v \<Rightarrow> if v = 0 then '''' else toFixed1 v);
                          releaseDate = formatReleaseDate E (first_air_date series)
                      in (Some \<lparr>meta_id = i,
                                meta_type = ''series'',
                                meta_name = or_str (name series) (or_str (original_name series) ''Unknown''),
                                poster = ''https://image.tmdb.org/t/p/w500'' @ posterPath,
                                posterShape = ''poster'',
                                background = (if truthy (backdrop_path series)
                                              then Some (''https://image.tmdb.org/t/p/original'' @ or_str (backdrop_path series) '''')
                                              else None),
                                description = or_str (overview series) ''No description'',
                                releaseInfo = (if truthy releaseDate then releaseDate
                                               else if truthy (first_air_date series)
                                               then Some (take 4 (or_str (first_air_date series) ''''))
                                               else None),
                                imdbRating = rating,
                                language = langLabel\<rparr>, evs))))"

subsection \<open>The catalog handler\<close>

text \<open>
  A request as the handler receives it: \<open>search\<close> is \<^verbatim>\<open>extra.search\<close>, and \<open>skip\<close> is the
  number that \<^verbatim>\<open>parseInt(extra.skip || 0, 10) || 0\<close> yields.
\<close>

record request =
  req_type :: string
  req_id :: string
  search :: "string option"
  skip :: int

record response =
  metas :: "meta list"
  cacheMaxAge :: nat
  staleRevalidate :: nat
  staleError :: nat

definition searchQuery :: "request \<Rightarrow> string" where
  "searchQuery req = or_str (search req) []"

definition pageSizeKeyBase :: "request \<Rightarrow> string" where
  "pageSizeKeyBase req =
     (if searchQuery req \<noteq> [] then req_id req @ ''_s_'' @ searchQuery req else req_id req)"

definition pageSize :: "env \<Rightarrow> cache \<Rightarrow> request \<Rightarrow> nat" where
  "pageSize E c req =
     (case cache_get (clock E) (page_sizes c) (pageSizeKeyBase req) of
        None \<Rightarrow> 20
      | Some n \<Rightarrow> if n = 0 then 20 else n)"

definition page :: "env \<Rightarrow> cache \<Rightarrow> request \<Rightarrow> int" where
  "page E c req = skip req div int (pageSize E c req) + 1"

definition cacheKey :: "env \<Rightarrow> cache \<Rightarrow> request \<Rightarrow> string \<times> int" where
  "cacheKey E c req = (pageSizeKeyBase req, page E c req)"

definition indianLangs :: "string list" where
  "indianLangs = [''hi'', ''ta'', ''te'', ''ml'', ''kn'', ''mr'', ''bn'', ''pa'']"

definition regionalLangs :: "string list" where
  "regionalLangs = [''ta'', ''te'', ''ml'', ''kn'', ''mr'']"

text \<open>\<^verbatim>\<open>await axios.get(...)\<close> of a list endpoint, then \<^verbatim>\<open>response.data.results || []\<close>.\<close>

definition fetch_list :: "env \<Rightarrow> list_query \<Rightarrow> (error + raw_item list) \<times> event list" where
  "fetch_list E q =
     (case list_results E q of
        None \<Rightarrow> (Inl UpstreamError, [Fetch q])
      | Some results \<Rightarrow> (Inr (case results of None \<Rightarrow> [] | Some rs \<Rightarrow> rs), [Fetch q]))"

text \<open>\<^verbatim>\<open>(await Promise.all(items.map(fmt))).filter(Boolean)\<close>.\<close>

definition format_all :: "(raw_item \<Rightarrow> meta option \<times> event list) \<Rightarrow> raw_item list \<Rightarrow> meta list \<times> event list" where
  "format_all fmt items = (let (formatted, evs) = promise_all fmt items in (filter_Boolean formatted, evs))"

text \<open>The loop over \<^verbatim>\<open>regionalLangs\<close> (lines 302 to 323), with \<open>allMovies\<close> as accumulator.\<close>

fun regional_loop :: "env \<Rightarrow> int \<Rightarrow> string list \<Rightarrow> raw_item list \<Rightarrow> cache \<Rightarrow> (error + raw_item list) \<times> event list" where
  "regional_loop E p [] allMovies c = (Inr allMovies, [])"
| "regional_loop E p (lang # langs) allMovies c =
     (if length allMovies \<ge> 25 then (Inr allMovies, [])
      else
        (case fetch_list E (DiscoverMovie (todayIST E) lang ''IN'' ''0'' p) of
           (Inl e, evs) \<Rightarrow> (Inl e, evs)
         | (Inr regionalMovies, evs) \<Rightarrow>
             (let (hindiChecks, evs2) = promise_all (\<lambda>m. hasHindiAudio E c (item_id m)) regionalMovies;
                  filteredRegional = filter_by regionalMovies hindiChecks;
                  (r, evs3) = regional_loop E p langs (allMovies @ filteredRegional) (apply_events (clock E) evs2 c)
              in (r, evs @ evs2 @ evs3))))"

text \<open>The loop that fills \<^verbatim>\<open>uniqueMovies\<close> (lines 325 to 332).\<close>

fun unique_loop :: "raw_item list \<Rightarrow> nat set \<Rightarrow> raw_item list \<Rightarrow> raw_item list" where
  "unique_loop [] seenIds uniqueMovies = uniqueMovies"
| "unique_loop (movie # rest) seenIds uniqueMovies =
     (if item_id movie \<notin> seenIds
      then unique_loop rest (insert (item_id movie) seenIds) (uniqueMovies @ [movie])
      else unique_loop rest seenIds uniqueMovies)"

definition uniqueMovies :: "raw_item list \<Rightarrow> raw_item list" where
  "uniqueMovies allMovies = unique_loop allMovies {} []"

text \<open>Line 334: the comparator and the sort by release date.\<close>

definition by_release_desc :: "raw_item \<Rightarrow> raw_item \<Rightarrow> int" where
  "by_release_desc a b = localeCompare (or_str (release_date b) []) (or_str (release_date a) [])"

definition sort_by_release :: "raw_item list \<Rightarrow> raw_item list" where
  "sort_by_release ms = sort_cmp by_release_desc ms"

text \<open>The branches of the \<^verbatim>\<open>try\<close> block, each up to the assignment of \<^verbatim>\<open>metas\<close>.\<close>

definition search_movie :: "env \<Rightarrow> cache \<Rightarrow> request \<Rightarrow> int \<Rightarrow> (error + meta list) \<times> event list" where
  "search_movie E c req p =
     (case fetch_list E (SearchMovie (searchQuery req) p) of
        (Inl e, evs) \<Rightarrow> (Inl e, evs)
      | (Inr movies, evs) \<Rightarrow>
          if req_id req = ''indian_latest'' then
            (let (hindiChecks, evs2) =
                   promise_all (\<lambda>m. case original_language m of
                                       None \<Rightarrow> (False, [])
                                     | Some l \<Rightarrow> if l \<in> set indianLangs then hasHindiAudio E c (item_id m)
                                                else (False, [])) movies;
                 (ms, evs3) = format_all (formatMovie E (apply_events (clock E) evs2 c))
                                (filter_by movies hindiChecks)
             in (Inr ms, evs @ evs2 @ evs3))
          else
            (let (ms, evs3) = format_all (formatMovie E c)
                                (if req_id req = ''hollywood_latest''
                                 then filter (\<lambda>m. original_language m = Some ''en'') movies
                                 else movies)
             in (Inr ms, evs @ evs3)))"

definition search_series :: "env \<Rightarrow> cache \<Rightarrow> request \<Rightarrow> int \<Rightarrow> (error + meta list) \<times> event list" where
  "search_series E c req p =
     (case fetch_list E (SearchTv (searchQuery req) p) of
        (Inl e, evs) \<Rightarrow> (Inl e, evs)
      | (Inr series, evs) \<Rightarrow>
          (let (ms, evs3) = format_all (formatSeries E c)
                              (if req_id req = ''hollywood_series_latest''
                               then filter (\<lambda>s. original_language s = Some ''en'') series
                               else series)
           in (Inr ms, evs @ evs3)))"

definition hollywood_latest :: "env \<Rightarrow> cache \<Rightarrow> int \<Rightarrow> (error + meta list) \<times> event list" where
  "hollywood_latest E c p =
     (case fetch_list E (DiscoverMovie (todayIST E) ''en'' ''US'' ''5'' p) of
        (Inl e, evs) \<Rightarrow> (Inl e, evs)
      | (Inr movies, evs) \<Rightarrow>
          (let (ms, evs3) = format_all (formatMovie E c) movies in (Inr ms, evs @ evs3)))"

definition indian_latest :: "env \<Rightarrow> cache \<Rightarrow> int \<Rightarrow> (error + meta list) \<times> event list" where
  "indian_latest E c p =
     (case fetch_list E (DiscoverMovie (todayIST E) ''hi'' ''IN'' ''0'' p) of
        (Inl e, evs) \<Rightarrow> (Inl e, evs)
      | (Inr primary, evs) \<Rightarrow>
          (case regional_loop E p regionalLangs primary c of
             (Inl e, evs2) \<Rightarrow> (Inl e, evs @ evs2)
           | (Inr allMovies, evs2) \<Rightarrow>
               (let (ms, evs3) = format_all (formatMovie E (apply_events (clock E) evs2 c))
                                   (take 20 (sort_by_release (uniqueMovies allMovies)))
                in (Inr ms, evs @ evs2 @ evs3))))"

definition hollywood_series_latest :: "env \<Rightarrow> cache \<Rightarrow> int \<Rightarrow> (error + meta list) \<times> event list" where
  "hollywood_series_latest E c p =
     (case fetch_list E (DiscoverTv (todayIST E) ''10'' p) of
        (Inl e, evs) \<Rightarrow> (Inl e, evs)
      | (Inr series, evs) \<Rightarrow>
          (let (ms, evs3) = format_all (formatSeries E c) series in (Inr ms, evs @ evs3)))"

definition fetch_metas :: "env \<Rightarrow> cache \<Rightarrow> request \<Rightarrow> int \<Rightarrow> (error + meta list) \<times> event list" where
  "fetch_metas E c req p =
     (if searchQuery req \<noteq> [] then
        (if req_type req = ''movie'' then search_movie E c req p
         else if req_type req = ''series'' then search_series E c req p
         else (Inr [], []))
      else if req_type req = ''movie'' \<and> req_id req = ''hollywood_latest'' then hollywood_latest E c p
      else if req_type req = ''movie'' \<and> req_id req = ''indian_latest'' then indian_latest E c p
      else if req_type req = ''series'' \<and> req_id req = ''hollywood_series_latest'' then hollywood_series_latest E c p
      else (Inr [], []))"

text \<open>Lines 357 to 364: what the handler stores once \<^verbatim>\<open>metas\<close> is known.\<close>

definition store_metas :: "env \<Rightarrow> cache \<Rightarrow> request \<Rightarrow> meta list \<Rightarrow> event list" where
  "store_metas E c req ms =
     (if length ms > 0
      then SetPage (cacheKey E c req) ms stdTTL #
           (if skip req = 0 then [SetPageSize (pageSizeKeyBase req) (length ms) 86400] else [])
      else [])"

definition reply :: "meta list \<Rightarrow> response" where
  "reply ms = \<lparr>metas = ms, cacheMaxAge = 0, staleRevalidate = 0, staleError = 0\<rparr>"

definition catalogHandler :: "env \<Rightarrow> cache \<Rightarrow> request \<Rightarrow> response \<times> event list" where
  "catalogHandler E c req =
     (case cache_get (clock E) (pages c) (cacheKey E c req) of
        Some cached \<Rightarrow> (reply cached, [])
      | None \<Rightarrow>
          (case fetch_metas E c req (page E c req) of
             (Inl e, evs) \<Rightarrow> (reply [], evs)
           | (Inr ms, evs) \<Rightarrow> (reply ms, evs @ store_metas E c req ms)))"

text \<open>The cache after a request.\<close>

definition cache_after :: "env \<Rightarrow> cache \<Rightarrow> request \<Rightarrow> cache" where
  "cache_after E c req = apply_events (clock E) (snd (catalogHandler E c req)) c"

subsection \<open>Reading a list of events\<close>

text \<open>The list queries, the stores of a result page and the stores of a page size in a list of events.\<close>

primrec fetched :: "event list \<Rightarrow> list_query list" where
  "fetched [] = []"
| "fetched (e # evs) = (case e of Fetch q \<Rightarrow> q # fetched evs | _ \<Rightarrow> fetched evs)"

primrec page_stores :: "event list \<Rightarrow> ((string \<times> int) \<times> meta list \<times> nat) list" where
  "page_stores [] = []"
| "page_stores (e # evs) = (case e of SetPage k v ttl \<Rightarrow> (k, v, ttl) # page_stores evs | _ \<Rightarrow> page_stores evs)"

primrec page_size_stores :: "event list \<Rightarrow> (string \<times> nat \<times> nat) list" where
  "page_size_stores [] = []"
| "page_size_stores (e # evs) = (case e of SetPageSize k v ttl \<Rightarrow> (k, v, ttl) # page_size_stores evs | _ \<Rightarrow> page_size_stores evs)"

text \<open>The events of the per-item lookups (\<^verbatim>\<open>getIMDBId\<close> and \<^verbatim>\<open>hasHindiAudio\<close>).\<close>

fun enrichment :: "event \<Rightarrow> bool" where
  "enrichment (FetchExternalIds e i) = True"
| "enrichment (FetchDetail i) = True"
| "enrichment (SetImdb k v ttl) = True"
| "enrichment (SetHindi k v ttl) = True"
| "enrichment (Fetch q) = False"
| "enrichment (SetPage k v ttl) = False"
| "enrichment (SetPageSize k v ttl) = False"

text \<open>The \<^verbatim>\<open>page\<close> parameter of a list query.\<close>

fun query_page :: "list_query \<Rightarrow> int" where
  "query_page (SearchMovie s p) = p"
| "query_page (SearchTv s p) = p"
| "query_page (DiscoverMovie d l r v p) = p"
| "query_page (DiscoverTv d v p) = p"

text \<open>The query of the loop over \<^verbatim>\<open>regionalLangs\<close> for one language (lines 305 to 317).\<close>

definition regional_query :: "env \<Rightarrow> int \<Rightarrow> string \<Rightarrow> list_query" where
  "regional_query E p lang = DiscoverMovie (todayIST E) lang ''IN'' ''0'' p"

text \<open>
  What every branch of the \<^verbatim>\<open>try\<close> block has in common: it stores no result page and no
  page size, every list query it issues asks for page \<open>p\<close>, and a list query that fails
  makes the branch throw.
\<close>

definition plain_fetch :: "env \<Rightarrow> int \<Rightarrow> (error + 'a) \<times> event list \<Rightarrow> bool" where
  "plain_fetch E p r \<longleftrightarrow>
     page_stores (snd r) = [] \<and> page_size_stores (snd r) = [] \<and>
     (\<forall>q\<in>set (fetched (snd r)). query_page q = p \<and> (list_results E q = None \<longrightarrow> (\<exists>e. fst r = Inl e)))"

text \<open>Line 214: the request is not answered from the cache.\<close>

definition cache_miss :: "env \<Rightarrow> cache \<Rightarrow> request \<Rightarrow> bool" where
  "cache_miss E c req \<longleftrightarrow> cache_get (clock E) (pages c) (cacheKey E c req) = None"

text \<open>
  A formatted item that carries an identifier and a poster; a cache in which every stored
  page holds such items only; a cache in which no stored page is empty.
\<close>

definition presentable :: "meta \<Rightarrow> bool" where
  "presentable x \<longleftrightarrow> meta_id x \<noteq> [] \<and> strict_prefix ''https://image.tmdb.org/t/p/w500'' (poster x)"

definition pages_presentable :: "cache \<Rightarrow> bool" where
  "pages_presentable c \<longleftrightarrow> (\<forall>k v t. pages c k = Some (v, t) \<longrightarrow> list_all presentable v)"



subsection \<open>Sample inputs\<close>

text \<open>Concrete items, environments, caches and requests, on which the theorems are run.\<close>

definition sample_movie :: "nat \<Rightarrow> raw_item" where
  "sample_movie i =
     \<lparr>item_id = i, poster_path = Some ''/p.jpg'', backdrop_path = None,
      original_language = Some ''en'', vote_average = Some (73 / 10), overview = Some ''A film'',
      title = Some ''Film'', original_title = None, release_date = Some ''2024-05-01'',
      name = None, original_name = None, first_air_date = None\<rparr>"

text \<open>The day, month and year of a date written \<^verbatim>\<open>YYYY-MM-DD\<close>, on a host in UTC.\<close>

definition iso_to_dmy :: "string \<Rightarrow> string" where
  "iso_to_dmy s = take 2 (drop 8 s) @ ''-'' @ take 2 (drop 5 s) @ ''-'' @ take 4 s"

text \<open>An upstream that is down: every call throws.\<close>

definition env_down :: env where
  "env_down =
     \<lparr>clock = 1000, todayIST = ''2026-11-03'', date_dmy = iso_to_dmy,
      list_results = (\<lambda>q. None), external_ids = (\<lambda>e i. None), movie_detail = (\<lambda>i. None)\<rparr>"

definition hollywood_request :: "int \<Rightarrow> request" where
  "hollywood_request k = \<lparr>req_type = ''movie'', req_id = ''hollywood_latest'', search = None, skip = k\<rparr>"


text \<open>
  An upstream for the Indian catalog: ten Hindi films on every page, eight films for each
  regional language, every film with a Hindi translation and a resolvable identifier.
\<close>

definition india_results :: "list_query \<Rightarrow> raw_item list option option" where
  "india_results q =
     (case q of
        DiscoverMovie d lang region votes p \<Rightarrow>
          if lang = ''hi'' then Some (Some (map sample_movie [1, 2, 3, 4, 5, 6, 7, 8, 9, 10]))
          else if lang = ''ta'' then Some (Some (map sample_movie [11, 12, 13, 14, 15, 16, 17, 18]))
          else if lang = ''te'' then Some (Some (map sample_movie [21, 22, 23, 24, 25, 26, 27, 28]))
          else Some (Some (map sample_movie [31, 32, 33, 34, 35, 36, 37, 38]))
      | _ \<Rightarrow> None)"

definition dubbed_detail :: detail where
  "dubbed_detail =
     \<lparr>detail_language = Some ''ta'', detail_translations = Some [''en'', ''hi''],
      detail_release_dates = Some [''US'']\<rparr>"

definition env_india :: env where
  "env_india =
     \<lparr>clock = 1000, todayIST = ''2026-11-03'', date_dmy = iso_to_dmy,
      list_results = india_results,
      external_ids = (\<lambda>e i. Some (Some (''tt'' @ show_nat i))),
      movie_detail = (\<lambda>i. Some dubbed_detail)\<rparr>"

text \<open>An upstream whose records carry no IMDb identifier.\<close>

definition env_no_imdb :: env where
  "env_no_imdb = env_down\<lparr>external_ids := (\<lambda>e i. Some None)\<rparr>"


text \<open>An upstream whose every list query answers seventeen films, each with a poster and an identifier.\<close>

definition env_seventeen :: env where
  "env_seventeen = env_india\<lparr>list_results := (\<lambda>q. Some (Some (map sample_movie [1..<18])))\<rparr>"

section \<open>Properties\<close>

subsection \<open>Events of the helpers and of the branches\<close>

lemma fetched_append [simp]: "fetched (xs @ ys) = fetched xs @ fetched ys"
  by (induction xs) (auto split: event.splits)

lemma page_stores_append [simp]: "page_stores (xs @ ys) = page_stores xs @ page_stores ys"
  by (induction xs) (auto split: event.splits)

lemma page_size_stores_append [simp]: "page_size_stores (xs @ ys) = page_size_stores xs @ page_size_stores ys"
  by (induction xs) (auto split: event.splits)

lemma enrichment_fetched [simp]: "list_all enrichment evs \<Longrightarrow> fetched evs = []"
  by (induction evs) (auto split: event.splits)

lemma enrichment_page_stores [simp]: "list_all enrichment evs \<Longrightarrow> page_stores evs = []"
  by (induction evs) (auto split: event.splits)

lemma enrichment_page_size_stores [simp]: "list_all enrichment evs \<Longrightarrow> page_size_stores evs = []"
  by (induction evs) (auto split: event.splits)

lemma enrichment_getIMDBId [simp]: "list_all enrichment (snd (getIMDBId E c i t))"
  by (simp add: getIMDBId_def Let_def split: option.splits)

lemma enrichment_hasHindiAudio [simp]: "list_all enrichment (snd (hasHindiAudio E c i))"
  by (simp add: hasHindiAudio_def Let_def split: option.splits)

lemma enrichment_formatMovie [simp]: "list_all enrichment (snd (formatMovie E c m))"
proof -
  have "snd (formatMovie E c m) = [] \<or> snd (formatMovie E c m) = snd (getIMDBId E c (item_id m) ''movie'')"
    by (simp add: formatMovie_def Let_def split: option.splits prod.splits)
  then show ?thesis using enrichment_getIMDBId [of E c "item_id m" "''movie''"] by auto
qed

lemma enrichment_formatSeries [simp]: "list_all enrichment (snd (formatSeries E c m))"
proof -
  have "snd (formatSeries E c m) = [] \<or> snd (formatSeries E c m) = snd (getIMDBId E c (item_id m) ''series'')"
    by (simp add: formatSeries_def Let_def split: option.splits prod.splits)
  then show ?thesis using enrichment_getIMDBId [of E c "item_id m" "''series''"] by auto
qed

lemma enrichment_promise_all:
  "(\<And>x. list_all enrichment (snd (task x))) \<Longrightarrow> list_all enrichment (snd (promise_all task xs))"
  by (induction xs) (simp_all add: promise_all_def)

lemma snd_format_all: "snd (format_all fmt xs) = snd (promise_all fmt xs)"
  by (simp add: format_all_def case_prod_beta)

lemma fst_format_all: "fst (format_all fmt xs) = filter_Boolean (map (\<lambda>x. fst (fmt x)) xs)"
  by (simp add: format_all_def case_prod_beta promise_all_def)

lemma enrichment_format_all:
  "(\<And>x. list_all enrichment (snd (fmt x))) \<Longrightarrow> list_all enrichment (snd (format_all fmt xs))"
  using enrichment_promise_all [of fmt xs] by (simp add: snd_format_all)

lemma enrichment_hindi_task [simp]:
  "list_all enrichment (snd (case original_language m of None \<Rightarrow> (False, [])
       | Some l \<Rightarrow> if l \<in> set indianLangs then hasHindiAudio E c (item_id m) else (False, [])))"
  by (simp split: option.splits)

lemma snd_fetch_list [simp]: "snd (fetch_list E q) = [Fetch q]"
  by (simp add: fetch_list_def split: option.splits)

lemma fst_fetch_list_Inl: "(\<exists>e. fst (fetch_list E q) = Inl e) \<longleftrightarrow> list_results E q = None"
  by (simp add: fetch_list_def split: option.splits)

lemma regional_loop_full [simp]: "25 \<le> length acc \<Longrightarrow> regional_loop E p langs acc c = (Inr acc, [])"
  by (cases langs) simp_all

lemma regional_loop_fail:
  "length acc < 25 \<Longrightarrow> list_results E (regional_query E p lang) = None \<Longrightarrow>
   regional_loop E p (lang # langs) acc c = (Inl UpstreamError, [Fetch (regional_query E p lang)])"
  by (simp add: fetch_list_def regional_query_def)

lemma regional_loop_step:
  assumes "length acc < 25" and "list_results E (regional_query E p lang) = Some rs"
  shows "regional_loop E p (lang # langs) acc c =
    (let regionalMovies = (case rs of None \<Rightarrow> [] | Some r \<Rightarrow> r);
         checks = promise_all (\<lambda>m. hasHindiAudio E c (item_id m)) regionalMovies;
         r = regional_loop E p langs (acc @ filter_by regionalMovies (fst checks)) (apply_events (clock E) (snd checks) c)
     in (fst r, Fetch (regional_query E p lang) # snd checks @ snd r))"
  using assms by (simp add: fetch_list_def regional_query_def case_prod_beta Let_def)

lemma regional_loop_events:
  "page_stores (snd (regional_loop E p langs acc c)) = [] \<and>
   page_size_stores (snd (regional_loop E p langs acc c)) = [] \<and>
   (\<forall>q\<in>set (fetched (snd (regional_loop E p langs acc c))). list_results E q = None \<longrightarrow> (\<exists>e. fst (regional_loop E p langs acc c) = Inl e))"
proof (induction langs arbitrary: acc c)
  case Nil
  then show ?case by auto
next
  case (Cons lang langs)
  show ?case
  proof (cases "25 \<le> length acc")
    case True
    then show ?thesis by auto
  next
    case False
    then have lt: "length acc < 25" by simp
    show ?thesis
    proof (cases "list_results E (regional_query E p lang)")
      case None
      show ?thesis unfolding regional_loop_fail [OF lt None] by simp
    next
      case (Some rs)
      have en: "list_all enrichment (snd (promise_all (\<lambda>m. hasHindiAudio E c (item_id m)) xs))" for xs
        by (rule enrichment_promise_all) simp
      show ?thesis unfolding regional_loop_step [OF lt Some] Let_def
        using Cons.IH Some by (auto simp: en)
    qed
  qed
qed

lemma regional_loop_pages:
  "\<forall>q\<in>set (fetched (snd (regional_loop E p langs acc c))). query_page q = p"
proof (induction langs arbitrary: acc c)
  case Nil
  then show ?case by auto
next
  case (Cons lang langs)
  show ?case
  proof (cases "25 \<le> length acc")
    case True
    then show ?thesis by auto
  next
    case False
    then have lt: "length acc < 25" by simp
    show ?thesis
    proof (cases "list_results E (regional_query E p lang)")
      case None
      show ?thesis unfolding regional_loop_fail [OF lt None] by (simp add: regional_query_def)
    next
      case (Some rs)
      have en: "list_all enrichment (snd (promise_all (\<lambda>m. hasHindiAudio E c (item_id m)) xs))" for xs
        by (rule enrichment_promise_all) simp
      show ?thesis unfolding regional_loop_step [OF lt Some] Let_def
        using Cons.IH by (auto simp: en regional_query_def)
    qed
  qed
qed

lemma plain_fetch_regional_loop: "plain_fetch E p (regional_loop E p langs acc c)"
  using regional_loop_events [of E p langs acc c] regional_loop_pages [of E p langs acc c]
  by (simp add: plain_fetch_def)

lemma enrichment_format_movies [simp]: "list_all enrichment (snd (format_all (formatMovie E c) xs))"
  by (rule enrichment_format_all) simp

lemma enrichment_format_series [simp]: "list_all enrichment (snd (format_all (formatSeries E c) xs))"
  by (rule enrichment_format_all) simp

lemma enrichment_hindi_checks [simp]:
  "list_all enrichment (snd (promise_all (\<lambda>m. case original_language m of None \<Rightarrow> (False, [])
       | Some l \<Rightarrow> if l \<in> set indianLangs then hasHindiAudio E c (item_id m) else (False, [])) xs))"
  by (rule enrichment_promise_all) simp

lemma plain_fetch_search_movie: "plain_fetch E p (search_movie E c req p)"
  by (simp add: plain_fetch_def search_movie_def fetch_list_def case_prod_beta Let_def split: option.splits)

lemma plain_fetch_search_series: "plain_fetch E p (search_series E c req p)"
  by (simp add: plain_fetch_def search_series_def fetch_list_def case_prod_beta Let_def split: option.splits)

lemma plain_fetch_hollywood_latest: "plain_fetch E p (hollywood_latest E c p)"
  by (simp add: plain_fetch_def hollywood_latest_def fetch_list_def case_prod_beta Let_def split: option.splits)

lemma plain_fetch_hollywood_series_latest: "plain_fetch E p (hollywood_series_latest E c p)"
  by (simp add: plain_fetch_def hollywood_series_latest_def fetch_list_def case_prod_beta Let_def split: option.splits)

lemma plain_fetch_indian_latest: "plain_fetch E p (indian_latest E c p)"
proof (cases "list_results E (DiscoverMovie (todayIST E) ''hi'' ''IN'' ''0'' p)")
  case None
  then show ?thesis by (simp add: plain_fetch_def indian_latest_def fetch_list_def)
next
  case (Some rs)
  obtain r evs where loop: "regional_loop E p regionalLangs (case rs of None \<Rightarrow> [] | Some x \<Rightarrow> x) c = (r, evs)"
    by (cases "regional_loop E p regionalLangs (case rs of None \<Rightarrow> [] | Some x \<Rightarrow> x) c") auto
  have pf: "plain_fetch E p (r, evs)"
    using plain_fetch_regional_loop [of E p regionalLangs "case rs of None \<Rightarrow> [] | Some x \<Rightarrow> x" c] loop by simp
  show ?thesis using Some loop pf
    by (cases r) (auto simp: plain_fetch_def indian_latest_def fetch_list_def case_prod_beta Let_def)
qed

lemma plain_fetch_fetch_metas: "plain_fetch E p (fetch_metas E c req p)"
  using plain_fetch_search_movie [of E p c req] plain_fetch_search_series [of E p c req]
    plain_fetch_hollywood_latest [of E p c] plain_fetch_indian_latest [of E p c]
    plain_fetch_hollywood_series_latest [of E p c]
  by (simp add: fetch_metas_def) (simp add: plain_fetch_def)

subsection \<open>The handler, case by case\<close>

lemma fetched_store_metas [simp]: "fetched (store_metas E c req ms) = []"
  by (simp add: store_metas_def)

lemma page_stores_store_metas:
  "page_stores (store_metas E c req ms) = (if ms = [] then [] else [(cacheKey E c req, ms, stdTTL)])"
  by (simp add: store_metas_def)

lemma page_size_stores_store_metas:
  "page_size_stores (store_metas E c req ms) =
     (if ms \<noteq> [] \<and> skip req = 0 then [(pageSizeKeyBase req, length ms, 86400)] else [])"
  by (simp add: store_metas_def)

lemma catalogHandler_hit:
  "cache_get (clock E) (pages c) (cacheKey E c req) = Some cached \<Longrightarrow> catalogHandler E c req = (reply cached, [])"
  by (simp add: catalogHandler_def)

lemma catalogHandler_throw:
  "cache_miss E c req \<Longrightarrow> fetch_metas E c req (page E c req) = (Inl e, evs) \<Longrightarrow>
   catalogHandler E c req = (reply [], evs)"
  by (simp add: catalogHandler_def cache_miss_def)

lemma catalogHandler_fetched_ok:
  "cache_miss E c req \<Longrightarrow> fetch_metas E c req (page E c req) = (Inr ms, evs) \<Longrightarrow>
   catalogHandler E c req = (reply ms, evs @ store_metas E c req ms)"
  by (simp add: catalogHandler_def cache_miss_def)

lemma catalogHandler_cases:
  obtains (hit) cached where "cache_get (clock E) (pages c) (cacheKey E c req) = Some cached"
      and "catalogHandler E c req = (reply cached, [])"
  | (throw) e evs where "cache_miss E c req" and "fetch_metas E c req (page E c req) = (Inl e, evs)"
      and "catalogHandler E c req = (reply [], evs)"
  | (fetched) ms evs where "cache_miss E c req" and "fetch_metas E c req (page E c req) = (Inr ms, evs)"
      and "catalogHandler E c req = (reply ms, evs @ store_metas E c req ms)"
proof (cases "cache_get (clock E) (pages c) (cacheKey E c req)")
  case None
  then have miss: "cache_miss E c req" by (simp add: cache_miss_def)
  obtain r evs where f: "fetch_metas E c req (page E c req) = (r, evs)"
    by (cases "fetch_metas E c req (page E c req)") auto
  show ?thesis
  proof (cases r)
    case (Inl e)
    with f miss show ?thesis using throw catalogHandler_throw by blast
  next
    case (Inr ms)
    with f miss show ?thesis using fetched catalogHandler_fetched_ok by blast
  qed
next
  case (Some cached)
  then show ?thesis using hit catalogHandler_hit by blast
qed

lemma pageSize_pos: "0 < pageSize E c req"
  by (simp add: pageSize_def split: option.splits)

lemma pages_apply_events:
  "pages (apply_events now evs c) = fold (\<lambda>(k, v, ttl) s. cache_set now s k v ttl) (page_stores evs) (pages c)"
  unfolding apply_events_def by (induction evs arbitrary: c) (auto split: event.splits)

lemma page_sizes_apply_events:
  "page_sizes (apply_events now evs c) = fold (\<lambda>(k, v, ttl) s. cache_set now s k v ttl) (page_size_stores evs) (page_sizes c)"
  unfolding apply_events_def by (induction evs arbitrary: c) (auto split: event.splits)

lemma handler_page_stores:
  "page_stores (snd (catalogHandler E c req)) =
     (if cache_miss E c req \<and> metas (fst (catalogHandler E c req)) \<noteq> []
      then [(cacheKey E c req, metas (fst (catalogHandler E c req)), stdTTL)] else [])"
proof (cases E c req rule: catalogHandler_cases)
  case (hit cached)
  then show ?thesis by (simp add: cache_miss_def)
next
  case (throw e evs)
  then show ?thesis
    using plain_fetch_fetch_metas [of E "page E c req" c req] by (simp add: plain_fetch_def reply_def)
next
  case (fetched ms evs)
  then show ?thesis
    using plain_fetch_fetch_metas [of E "page E c req" c req]
    by (simp add: plain_fetch_def reply_def page_stores_store_metas)
qed

lemma handler_page_size_stores:
  "page_size_stores (snd (catalogHandler E c req)) =
     (if cache_miss E c req \<and> skip req = 0 \<and> metas (fst (catalogHandler E c req)) \<noteq> []
      then [(pageSizeKeyBase req, length (metas (fst (catalogHandler E c req))), 86400)] else [])"
proof (cases E c req rule: catalogHandler_cases)
  case (hit cached)
  then show ?thesis by (simp add: cache_miss_def)
next
  case (throw e evs)
  then show ?thesis
    using plain_fetch_fetch_metas [of E "page E c req" c req] by (simp add: plain_fetch_def reply_def)
next
  case (fetched ms evs)
  then show ?thesis
    using plain_fetch_fetch_metas [of E "page E c req" c req]
    by (simp add: plain_fetch_def reply_def page_size_stores_store_metas)
qed

lemma pages_cache_after:
  "pages (cache_after E c req) =
     (if cache_miss E c req \<and> metas (fst (catalogHandler E c req)) \<noteq> []
      then (pages c)(cacheKey E c req \<mapsto> (metas (fst (catalogHandler E c req)), clock E + stdTTL))
      else pages c)"
  by (simp add: cache_after_def pages_apply_events handler_page_stores cache_set_def)

lemma page_sizes_cache_after:
  "page_sizes (cache_after E c req) =
     (if cache_miss E c req \<and> skip req = 0 \<and> metas (fst (catalogHandler E c req)) \<noteq> []
      then (page_sizes c)(pageSizeKeyBase req \<mapsto> (length (metas (fst (catalogHandler E c req))), clock E + 86400))
      else page_sizes c)"
  by (simp add: cache_after_def page_sizes_apply_events handler_page_size_stores cache_set_def)

subsection \<open>Deduplication and sorting\<close>

lemma unique_loop_acc: "unique_loop ms seen uniq = uniq @ unique_loop ms seen []"
proof (induction ms arbitrary: seen uniq)
  case Nil
  then show ?case by simp
next
  case (Cons m ms)
  show ?case
  proof (cases "item_id m \<in> seen")
    case True
    then show ?thesis using Cons.IH [of seen uniq] by simp
  next
    case False
    then show ?thesis
      using Cons.IH [of "insert (item_id m) seen" "uniq @ [m]"] Cons.IH [of "insert (item_id m) seen" "[m]"]
      by simp
  qed
qed

lemma unique_loop_Cons:
  "unique_loop (m # ms) seen [] =
     (if item_id m \<in> seen then unique_loop ms seen [] else m # unique_loop ms (insert (item_id m) seen) [])"
  using unique_loop_acc [of ms "insert (item_id m) seen" "[m]"] by simp

lemma unique_loop_ids: "item_id ` set (unique_loop ms seen []) = item_id ` set ms - seen"
proof (induction ms arbitrary: seen)
  case Nil
  then show ?case by simp
next
  case (Cons m ms)
  show ?case unfolding unique_loop_Cons using Cons.IH by auto
qed

lemma unique_loop_distinct: "distinct (map item_id (unique_loop ms seen []))"
proof (induction ms arbitrary: seen)
  case Nil
  then show ?case by simp
next
  case (Cons m ms)
  show ?case unfolding unique_loop_Cons using Cons.IH unique_loop_ids [of ms "insert (item_id m) seen"] by auto
qed

lemma unique_loop_subseq: "subseq (unique_loop ms seen []) ms"
proof (induction ms arbitrary: seen)
  case Nil
  then show ?case by simp
next
  case (Cons m ms)
  show ?case unfolding unique_loop_Cons using Cons.IH by auto
qed

lemma unique_loop_first:
  "x \<in> set (unique_loop ms seen []) \<Longrightarrow> find (\<lambda>y. item_id y = item_id x) ms = Some x"
proof (induction ms arbitrary: seen)
  case Nil
  then show ?case by simp
next
  case (Cons m ms)
  show ?case
  proof (cases "item_id m \<in> seen")
    case True
    with Cons.prems [unfolded unique_loop_Cons] have x: "x \<in> set (unique_loop ms seen [])" by simp
    then have "item_id x \<notin> seen" using unique_loop_ids [of ms seen] by auto
    with True have "item_id m \<noteq> item_id x" by auto
    then show ?thesis using Cons.IH [OF x] by simp
  next
    case False
    with Cons.prems [unfolded unique_loop_Cons]
    have "x = m \<or> x \<in> set (unique_loop ms (insert (item_id m) seen) [])" by simp
    then show ?thesis
    proof
      assume "x = m"
      then show ?thesis by simp
    next
      assume x: "x \<in> set (unique_loop ms (insert (item_id m) seen) [])"
      then have "item_id x \<notin> insert (item_id m) seen"
        using unique_loop_ids [of ms "insert (item_id m) seen"] by auto
      then have "item_id m \<noteq> item_id x" by auto
      then show ?thesis using Cons.IH [OF x] by simp
    qed
  qed
qed

lemma by_release_desc_le: "by_release_desc a b \<le> 0 \<longleftrightarrow> or_str (release_date b) [] \<le> or_str (release_date a) []"
  by (auto simp: by_release_desc_def localeCompare_def)

lemma mset_insert_cmp: "mset (insert_cmp cmp x xs) = add_mset x (mset xs)"
  by (induction xs) auto

lemma mset_sort_cmp: "mset (sort_cmp cmp xs) = mset xs"
  unfolding sort_cmp_def by (induction xs) (auto simp: mset_insert_cmp)

lemma set_insert_cmp: "set (insert_cmp cmp x xs) = insert x (set xs)"
  using mset_insert_cmp [of cmp x xs] by (metis set_mset_add_mset_insert set_mset_mset)

lemma sorted_insert_release:
  "sorted_wrt (\<lambda>a b. or_str (release_date b) [] \<le> or_str (release_date a) []) xs \<Longrightarrow>
   sorted_wrt (\<lambda>a b. or_str (release_date b) [] \<le> or_str (release_date a) []) (insert_cmp by_release_desc x xs)"
proof (induction xs)
  case Nil
  then show ?case by simp
next
  case (Cons y ys)
  show ?case
  proof (cases "by_release_desc x y \<le> 0")
    case True
    then have "or_str (release_date y) [] \<le> or_str (release_date x) []" by (simp add: by_release_desc_le)
    with Cons.prems True show ?thesis by auto
  next
    case False
    then have "or_str (release_date x) [] \<le> or_str (release_date y) []" by (simp add: by_release_desc_le)
    with Cons False show ?thesis by (auto simp: set_insert_cmp)
  qed
qed

lemma sorted_sort_by_release:
  "sorted_wrt (\<lambda>a b. or_str (release_date b) [] \<le> or_str (release_date a) []) (sort_by_release ms)"
  unfolding sort_by_release_def sort_cmp_def by (induction ms) (auto simp: sorted_insert_release)

lemma filter_insert_release:
  "sorted_wrt (\<lambda>a b. or_str (release_date b) [] \<le> or_str (release_date a) []) xs \<Longrightarrow>
   filter (\<lambda>m. or_str (release_date m) [] = k) (insert_cmp by_release_desc x xs) =
     (if or_str (release_date x) [] = k then x # filter (\<lambda>m. or_str (release_date m) [] = k) xs
      else filter (\<lambda>m. or_str (release_date m) [] = k) xs)"
proof (induction xs)
  case Nil
  then show ?case by simp
next
  case (Cons y ys)
  show ?case
  proof (cases "by_release_desc x y \<le> 0")
    case True
    then show ?thesis by simp
  next
    case False
    then have lt: "or_str (release_date x) [] < or_str (release_date y) []" by (simp add: by_release_desc_le)
    show ?thesis using Cons False lt by auto
  qed
qed

lemma stable_sort_by_release:
  "filter (\<lambda>m. or_str (release_date m) [] = k) (sort_by_release ms) = filter (\<lambda>m. or_str (release_date m) [] = k) ms"
proof (induction ms)
  case Nil
  then show ?case by (simp add: sort_by_release_def sort_cmp_def)
next
  case (Cons m ms)
  have "sort_by_release (m # ms) = insert_cmp by_release_desc m (sort_by_release ms)"
    by (simp add: sort_by_release_def sort_cmp_def)
  then show ?case using Cons filter_insert_release [OF sorted_sort_by_release [of ms], of k m] by simp
qed

lemma falsy_key: "\<not> truthy d \<longleftrightarrow> or_str d [] = []"
  by (auto simp: truthy_def or_str_def split: option.splits)

lemma undated_last:
  assumes "i < j" and "j < length ms" and "\<not> truthy (release_date (sort_by_release ms ! i))"
  shows "\<not> truthy (release_date (sort_by_release ms ! j))"
proof -
  have len: "length (sort_by_release ms) = length ms"
    using mset_sort_cmp [of by_release_desc ms] by (metis sort_by_release_def size_mset)
  have "or_str (release_date (sort_by_release ms ! j)) [] \<le> or_str (release_date (sort_by_release ms ! i)) []"
    using sorted_sort_by_release [of ms] assms(1,2) len by (simp add: sorted_wrt_iff_nth_less)
  with assms(3) show ?thesis by (simp add: falsy_key)
qed

subsection \<open>The identifier cache\<close>


subsection \<open>Formatting, and what a request leaves in the cache\<close>

lemma formatMovie_Some:
  assumes "fst (formatMovie E c m) = Some x"
  shows "\<exists>p. poster_path m = Some p \<and> p \<noteq> [] \<and> poster x = ''https://image.tmdb.org/t/p/w500'' @ p \<and>
             meta_id x \<noteq> [] \<and> fst (getIMDBId E c (item_id m) ''movie'') = Some (meta_id x)"
  using assms
  by (auto simp: formatMovie_def Let_def case_prod_beta split: option.splits if_splits)

lemma formatSeries_Some:
  assumes "fst (formatSeries E c m) = Some x"
  shows "\<exists>p. poster_path m = Some p \<and> p \<noteq> [] \<and> poster x = ''https://image.tmdb.org/t/p/w500'' @ p \<and>
             meta_id x \<noteq> [] \<and> fst (getIMDBId E c (item_id m) ''series'') = Some (meta_id x)"
  using assms
  by (auto simp: formatSeries_def Let_def case_prod_beta split: option.splits if_splits)

lemma formatMovie_None:
  "\<not> truthy (poster_path m) \<or> \<not> truthy (fst (getIMDBId E c (item_id m) ''movie'')) \<Longrightarrow>
   fst (formatMovie E c m) = None"
  by (auto simp: formatMovie_def Let_def case_prod_beta truthy_def split: option.splits if_splits)

lemma formatSeries_None:
  "\<not> truthy (poster_path m) \<or> \<not> truthy (fst (getIMDBId E c (item_id m) ''series'')) \<Longrightarrow>
   fst (formatSeries E c m) = None"
  by (auto simp: formatSeries_def Let_def case_prod_beta truthy_def split: option.splits if_splits)

lemma set_filter_Boolean: "set (filter_Boolean ys) = {x. Some x \<in> set ys}"
  by (induction ys) (auto split: option.splits)

lemma length_filter_Boolean: "length (filter_Boolean ys) = length (filter (\<lambda>y. y \<noteq> None) ys)"
  by (induction ys) (auto split: option.splits)

lemma presentable_formatMovie: "fst (formatMovie E c m) = Some x \<Longrightarrow> presentable x"
  using formatMovie_Some [of E c m x] by (auto simp: presentable_def strict_prefix_def)

lemma presentable_formatSeries: "fst (formatSeries E c m) = Some x \<Longrightarrow> presentable x"
  using formatSeries_Some [of E c m x] by (auto simp: presentable_def strict_prefix_def)

lemma presentable_format_movies [simp]: "list_all presentable (fst (format_all (formatMovie E c) ms))"
  by (auto simp: fst_format_all list_all_iff set_filter_Boolean presentable_formatMovie)

lemma presentable_format_series [simp]: "list_all presentable (fst (format_all (formatSeries E c) ms))"
  by (auto simp: fst_format_all list_all_iff set_filter_Boolean presentable_formatSeries)

lemma presentable_fetch_metas:
  "fetch_metas E c req p = (Inr ms, evs) \<Longrightarrow> list_all presentable ms"
  by (auto simp: fetch_metas_def search_movie_def search_series_def hollywood_latest_def
      indian_latest_def hollywood_series_latest_def Let_def case_prod_beta
      split: if_splits prod.splits sum.splits)






lemma fetched_indian_loop:
  assumes "list_results E (DiscoverMovie (todayIST E) ''hi'' ''IN'' ''0'' p) = Some rs"
  shows "fetched (snd (indian_latest E c p)) =
      DiscoverMovie (todayIST E) ''hi'' ''IN'' ''0'' p #
      fetched (snd (regional_loop E p regionalLangs (case rs of None \<Rightarrow> [] | Some x \<Rightarrow> x) c))"
proof -
  obtain r evs where loop: "regional_loop E p regionalLangs (case rs of None \<Rightarrow> [] | Some x \<Rightarrow> x) c = (r, evs)"
    by (cases "regional_loop E p regionalLangs (case rs of None \<Rightarrow> [] | Some x \<Rightarrow> x) c") auto
  show ?thesis using assms loop
    by (cases r) (simp_all add: indian_latest_def fetch_list_def case_prod_beta Let_def)
qed







lemma show_nat_2: "show_nat 2 = ''2''"
  by code_simp

subsection \<open>The regional loop, and a page of seventeen items\<close>

lemma fetched_hindi_checks [simp]:
  "fetched (snd (promise_all (\<lambda>m. hasHindiAudio E c (item_id m)) xs)) = []"
  by (rule enrichment_fetched, rule enrichment_promise_all) simp

lemma regional_loop_Nil: "regional_loop E p [] acc c = (Inr acc, [])"
  by simp

lemma regional_loop_turns:
  "i < length (fetched (snd (regional_loop E p langs acc c))) \<Longrightarrow>
   i < length langs \<and>
   fetched (snd (regional_loop E p langs acc c)) ! i = regional_query E p (langs ! i) \<and>
   (\<exists>a. fst (regional_loop E p (take i langs) acc c) = Inr a \<and> length a < 25)"
proof (induction langs arbitrary: acc c i)
  case Nil
  then show ?case by simp
next
  case (Cons lang langs)
  show ?case
  proof (cases "25 \<le> length acc")
    case True
    with Cons.prems show ?thesis by simp
  next
    case False
    then have lt: "length acc < 25" by simp
    show ?thesis
    proof (cases "list_results E (regional_query E p lang)")
      case None
      note fail = regional_loop_fail [OF lt None]
      from Cons.prems have "i = 0" unfolding fail by simp
      then show ?thesis using lt
        by (simp add: fail regional_loop_Nil del: regional_loop.simps)
    next
      case (Some rs)
      define regionalMovies where "regionalMovies = (case rs of None \<Rightarrow> [] | Some r \<Rightarrow> r)"
      define checks where "checks = promise_all (\<lambda>m. hasHindiAudio E c (item_id m)) regionalMovies"
      define acc' where "acc' = acc @ filter_by regionalMovies (fst checks)"
      define c' where "c' = apply_events (clock E) (snd checks) c"
      have step: "regional_loop E p (lang # ls) acc c =
          (fst (regional_loop E p ls acc' c'),
           Fetch (regional_query E p lang) # snd checks @ snd (regional_loop E p ls acc' c'))" for ls
        unfolding regional_loop_step [OF lt Some]
        by (simp add: Let_def regionalMovies_def checks_def acc'_def c'_def)
      have fc: "fetched (snd checks) = []"
        by (simp add: checks_def)
      have f: "fetched (snd (regional_loop E p (lang # langs) acc c)) =
          regional_query E p lang # fetched (snd (regional_loop E p langs acc' c'))"
        unfolding step by (simp add: checks_def)
      show ?thesis
      proof (cases i)
        case 0
        with lt show ?thesis
          by (simp add: f regional_loop_Nil del: regional_loop.simps)
      next
        case (Suc j)
        with Cons.prems have "j < length (fetched (snd (regional_loop E p langs acc' c')))"
          by (simp add: f del: regional_loop.simps)
        from Cons.IH [OF this] Suc show ?thesis
          by (simp add: fc step del: regional_loop.simps)
      qed
    qed
  qed
qed

lemma item_id_sample [simp]: "item_id (sample_movie i) = i"
  by (simp add: sample_movie_def)

lemma formatMovie_seventeen:
  assumes "imdb_ids c = Map.empty" and "0 < i"
  shows "fst (formatMovie env_seventeen c (sample_movie i)) \<noteq> None"
proof -
  have "fst (getIMDBId env_seventeen c i ''movie'') = Some (''tt'' @ show_nat i)"
    using assms(1)
    by (simp add: getIMDBId_def env_seventeen_def env_india_def cache_get_def truthy_def Let_def
        del: show_nat.simps)
  then show ?thesis using assms(2)
    by (simp add: formatMovie_def sample_movie_def case_prod_beta Let_def del: show_nat.simps)
qed

lemma length_format_all:
  "length (fst (format_all f ms)) = length (filter (\<lambda>m. fst (f m) \<noteq> None) ms)"
  by (simp add: fst_format_all length_filter_Boolean filter_map comp_def)

lemma seventeen_formatted:
  assumes "imdb_ids c = Map.empty"
  shows "length (fst (format_all (formatMovie env_seventeen c) (map sample_movie [1..<18]))) = 17"
proof -
  have "filter (\<lambda>m. fst (formatMovie env_seventeen c m) \<noteq> None) (map sample_movie [1..<18]) =
      map sample_movie [1..<18]"
    using formatMovie_seventeen [OF assms] by (auto simp: filter_id_conv)
  then have "length (fst (format_all (formatMovie env_seventeen c) (map sample_movie [1..<18]))) =
      length (map sample_movie [1..<18])"
    by (simp only: length_format_all)
  then show ?thesis by simp
qed

lemma seventeen_fetch:
  assumes "imdb_ids c = Map.empty"
  shows "\<exists>ms evs. fetch_metas env_seventeen c (hollywood_request k) p = (Inr ms, evs) \<and> length ms = 17"
proof -
  have r: "list_results env_seventeen q = Some (Some (map sample_movie [1..<18]))" for q
    by (simp add: env_seventeen_def)
  have "fetch_metas env_seventeen c (hollywood_request k) p =
      (Inr (fst (format_all (formatMovie env_seventeen c) (map sample_movie [1..<18]))),
       Fetch (DiscoverMovie (todayIST env_seventeen) ''en'' ''US'' ''5'' p) #
         snd (format_all (formatMovie env_seventeen c) (map sample_movie [1..<18])))"
    by (simp add: fetch_metas_def hollywood_latest_def fetch_list_def searchQuery_def or_str_def
        hollywood_request_def case_prod_beta Let_def r)
  then show ?thesis using seventeen_formatted [OF assms] by simp
qed

lemma seventeen_handler:
  assumes "imdb_ids c = Map.empty" and "cache_miss env_seventeen c (hollywood_request k)"
  shows "length (metas (fst (catalogHandler env_seventeen c (hollywood_request k)))) = 17"
proof -
  obtain ms evs where f: "fetch_metas env_seventeen c (hollywood_request k)
      (page env_seventeen c (hollywood_request k)) = (Inr ms, evs)" and l: "length ms = 17"
    using seventeen_fetch [OF assms(1)] by blast
  show ?thesis using catalogHandler_fetched_ok [OF assms(2) f] l by (simp add: reply_def)
qed

lemma pageSize_learned:
  assumes "cache_miss E c req" and "skip req = 0" and "metas (fst (catalogHandler E c req)) \<noteq> []"
    and "clock E' \<le> clock E + 86400" and "pageSizeKeyBase req' = pageSizeKeyBase req"
  shows "pageSize E' (cache_after E c req) req' = length (metas (fst (catalogHandler E c req)))"
  using assms by (simp add: pageSize_def page_sizes_cache_after cache_get_def)

section \<open>The claims\<close>

subsection \<open>C1: an upstream failure yields an empty list\<close>

text \<open>
  C1. For every request (any type, catalog id, offset and search string), every cache and
  every upstream, the handler returns a result object: a list of items with the three
  cache settings at zero. No exception leaves it. If one of the list queries that the
  handler issued failed (threw or timed out), the list of items is empty.
\<close>

theorem catalog_fail_empty:
  "(\<exists>ms. fst (catalogHandler E c req) = reply ms) \<and>
   (\<forall>q\<in>set (fetched (snd (catalogHandler E c req))).
      list_results E q = None \<longrightarrow> fst (catalogHandler E c req) = reply [])"
proof (cases E c req rule: catalogHandler_cases)
  case (hit cached)
  then show ?thesis by auto
next
  case (throw e evs)
  then show ?thesis by auto
next
  case (fetched ms evs)
  have "plain_fetch E (page E c req) (Inr ms :: error + meta list, evs)"
    using plain_fetch_fetch_metas [of E "page E c req" c req] fetched(2) by simp
  then have "\<forall>q\<in>set (fetched evs). list_results E q \<noteq> None"
    by (auto simp: plain_fetch_def)
  with fetched(3) show ?thesis by auto
qed

theorem catalog_fail_empty_witness:
  "fetched (snd (catalogHandler env_down empty_cache (hollywood_request 0))) =
     [DiscoverMovie ''2026-11-03'' ''en'' ''US'' ''5'' 1] \<and>
   list_results env_down (DiscoverMovie ''2026-11-03'' ''en'' ''US'' ''5'' 1) = None \<and>
   fst (catalogHandler env_down empty_cache (hollywood_request 0)) = reply []"
proof -
  have f: "fetched (snd (catalogHandler env_down empty_cache (hollywood_request 0))) =
     [DiscoverMovie ''2026-11-03'' ''en'' ''US'' ''5'' 1]"
    by (simp add: catalogHandler_def cacheKey_def page_def pageSize_def pageSizeKeyBase_def
        searchQuery_def or_str_def cache_get_def empty_cache_def hollywood_request_def
        fetch_metas_def hollywood_latest_def fetch_list_def env_down_def)
  have n: "list_results env_down (DiscoverMovie ''2026-11-03'' ''en'' ''US'' ''5'' 1) = None"
    by (simp add: env_down_def)
  show ?thesis
    using catalog_fail_empty [of env_down empty_cache "hollywood_request 0"] f n by simp
qed

subsection \<open>C2: the upstream page\<close>



subsection \<open>C5: deduplication\<close>

text \<open>
  C5. For every accumulated list of raw items, the deduplication step returns a list in
  which every identifier of the input occurs exactly once (the identifiers are distinct
  and are those of the input), each kept item is the first item of the input with its
  identifier, and the kept items stand in the order of the input.
\<close>

theorem unique_first_occurrence:
  "distinct (map item_id (uniqueMovies ms)) \<and>
   set (map item_id (uniqueMovies ms)) = set (map item_id ms) \<and>
   subseq (uniqueMovies ms) ms \<and>
   (\<forall>x\<in>set (uniqueMovies ms). find (\<lambda>y. item_id y = item_id x) ms = Some x)"
  unfolding uniqueMovies_def
  using unique_loop_distinct [of ms "{}"] unique_loop_ids [of ms "{}"] unique_loop_subseq [of ms "{}"]
    unique_loop_first [of _ ms "{}"]
  by auto

theorem unique_first_occurrence_witness:
  "uniqueMovies [sample_movie 1, sample_movie 2, (sample_movie 1)\<lparr>title := Some ''Again''\<rparr>,
      sample_movie 3, sample_movie 2] = [sample_movie 1, sample_movie 2, sample_movie 3] \<and>
   find (\<lambda>y. item_id y = item_id (sample_movie 1))
     [sample_movie 1, sample_movie 2, (sample_movie 1)\<lparr>title := Some ''Again''\<rparr>,
      sample_movie 3, sample_movie 2] = Some (sample_movie 1)"
  using unique_first_occurrence [of "[sample_movie 1, sample_movie 2,
      (sample_movie 1)\<lparr>title := Some ''Again''\<rparr>, sample_movie 3, sample_movie 2]"]
  by (simp add: uniqueMovies_def sample_movie_def)

subsection \<open>C6: the sort by release date\<close>

text \<open>
  C6. The sort of the composite catalog permutes the items, orders them by release date
  descending with an absent date read as the empty string, keeps the order of items with
  equal dates, and so puts the items without a date last. Items dated 2024-05-01, (none),
  2023-01-01 come out as 2024-05-01, 2023-01-01, (none).
\<close>

theorem sort_release_desc:
  "mset (sort_by_release ms) = mset ms \<and>
   sorted_wrt (\<lambda>a b. or_str (release_date b) [] \<le> or_str (release_date a) []) (sort_by_release ms) \<and>
   (\<forall>k. filter (\<lambda>m. or_str (release_date m) [] = k) (sort_by_release ms) =
        filter (\<lambda>m. or_str (release_date m) [] = k) ms) \<and>
   (\<forall>i j. i < j \<longrightarrow> j < length ms \<longrightarrow> \<not> truthy (release_date (sort_by_release ms ! i)) \<longrightarrow>
      \<not> truthy (release_date (sort_by_release ms ! j))) \<and>
   (release_date a = Some ''2024-05-01'' \<longrightarrow> \<not> truthy (release_date b) \<longrightarrow>
    release_date c = Some ''2023-01-01'' \<longrightarrow> sort_by_release [a, b, c] = [a, c, b])"
proof -
  have ex: "sort_by_release [a, b, c] = [a, c, b]"
    if "release_date a = Some ''2024-05-01''" and "\<not> truthy (release_date b)"
      and "release_date c = Some ''2023-01-01''"
  proof -
    have kb: "or_str (release_date b) [] = []" using that(2) by (simp add: falsy_key)
    have ka: "or_str (release_date a) [] = ''2024-05-01''" using that(1) by (simp add: or_str_def)
    have kc: "or_str (release_date c) [] = ''2023-01-01''" using that(3) by (simp add: or_str_def)
    show ?thesis
      by (simp add: sort_by_release_def sort_cmp_def by_release_desc_def localeCompare_def ka kb kc)
  qed
  show ?thesis
    using mset_sort_cmp [of by_release_desc ms] sorted_sort_by_release [of ms]
      stable_sort_by_release [of _ ms] undated_last [of _ _ ms] ex
    by (simp add: sort_by_release_def)
qed

theorem sort_release_desc_witness:
  "release_date (sample_movie 1) = Some ''2024-05-01'' \<and>
   \<not> truthy (release_date ((sample_movie 2)\<lparr>release_date := None\<rparr>)) \<and>
   release_date ((sample_movie 3)\<lparr>release_date := Some ''2023-01-01''\<rparr>) = Some ''2023-01-01'' \<and>
   sort_by_release [sample_movie 1, (sample_movie 2)\<lparr>release_date := None\<rparr>,
       (sample_movie 3)\<lparr>release_date := Some ''2023-01-01''\<rparr>] =
     [sample_movie 1, (sample_movie 3)\<lparr>release_date := Some ''2023-01-01''\<rparr>,
      (sample_movie 2)\<lparr>release_date := None\<rparr>]"
  using sort_release_desc [of "[]" "sample_movie 1" "(sample_movie 2)\<lparr>release_date := None\<rparr>"
      "(sample_movie 3)\<lparr>release_date := Some ''2023-01-01''\<rparr>"]
  by (simp add: sample_movie_def truthy_def)

subsection \<open>C9: the audio-language classifier\<close>



subsection \<open>C8: the identifier lookup and its two times to live\<close>




subsection \<open>C7: unrepresentable items are dropped\<close>

text \<open>
  C7. For every raw item, if it has no poster reference or the resolution of its
  identifier yields nothing, \<^verbatim>\<open>formatMovie\<close> and \<^verbatim>\<open>formatSeries\<close> return \<^verbatim>\<open>null\<close>, whatever
  its other fields are. The formatted list holds exactly the items whose formatting is
  not \<^verbatim>\<open>null\<close>: each of its entries comes from an item with a poster and a resolved
  identifier, and carries that identifier and the poster. Every list that the handler
  builds from upstream results holds such entries only, and so does every list it
  answers from a cache that it filled itself.
\<close>

theorem unrepresentable_dropped:
  "(\<not> truthy (poster_path m) \<or> \<not> truthy (fst (getIMDBId E c (item_id m) ''movie'')) \<longrightarrow>
      fst (formatMovie E c m) = None) \<and>
   (\<not> truthy (poster_path m) \<or> \<not> truthy (fst (getIMDBId E c (item_id m) ''series'')) \<longrightarrow>
      fst (formatSeries E c m) = None) \<and>
   (\<forall>x\<in>set (fst (format_all (formatMovie E c) ms)). presentable x \<and>
      (\<exists>m'\<in>set ms. truthy (poster_path m') \<and> fst (getIMDBId E c (item_id m') ''movie'') = Some (meta_id x) \<and>
         fst (formatMovie E c m') = Some x)) \<and>
   (\<forall>x\<in>set (fst (format_all (formatSeries E c) ms)). presentable x \<and>
      (\<exists>m'\<in>set ms. truthy (poster_path m') \<and> fst (getIMDBId E c (item_id m') ''series'') = Some (meta_id x) \<and>
         fst (formatSeries E c m') = Some x)) \<and>
   length (fst (format_all (formatMovie E c) ms)) = length (filter (\<lambda>m'. fst (formatMovie E c m') \<noteq> None) ms) \<and>
   length (fst (format_all (formatSeries E c) ms)) = length (filter (\<lambda>m'. fst (formatSeries E c m') \<noteq> None) ms) \<and>
   (cache_miss E c req \<longrightarrow> list_all presentable (metas (fst (catalogHandler E c req)))) \<and>
   (pages_presentable c \<longrightarrow>
      list_all presentable (metas (fst (catalogHandler E c req))) \<and> pages_presentable (cache_after E c req))"
proof -
  have a: "\<forall>x\<in>set (fst (format_all (formatMovie E c) ms)). presentable x \<and>
      (\<exists>m'\<in>set ms. truthy (poster_path m') \<and> fst (getIMDBId E c (item_id m') ''movie'') = Some (meta_id x) \<and>
         fst (formatMovie E c m') = Some x)"
  proof
    fix x assume "x \<in> set (fst (format_all (formatMovie E c) ms))"
    then obtain m' where m': "m' \<in> set ms" "fst (formatMovie E c m') = Some x"
      by (auto simp: fst_format_all set_filter_Boolean)
    then show "presentable x \<and>
      (\<exists>m'\<in>set ms. truthy (poster_path m') \<and> fst (getIMDBId E c (item_id m') ''movie'') = Some (meta_id x) \<and>
         fst (formatMovie E c m') = Some x)"
      using formatMovie_Some [OF m'(2)] presentable_formatMovie [OF m'(2)]
      by (intro conjI bexI [of _ m']) (auto simp: truthy_def)
  qed
  have b: "\<forall>x\<in>set (fst (format_all (formatSeries E c) ms)). presentable x \<and>
      (\<exists>m'\<in>set ms. truthy (poster_path m') \<and> fst (getIMDBId E c (item_id m') ''series'') = Some (meta_id x) \<and>
         fst (formatSeries E c m') = Some x)"
  proof
    fix x assume "x \<in> set (fst (format_all (formatSeries E c) ms))"
    then obtain m' where m': "m' \<in> set ms" "fst (formatSeries E c m') = Some x"
      by (auto simp: fst_format_all set_filter_Boolean)
    then show "presentable x \<and>
      (\<exists>m'\<in>set ms. truthy (poster_path m') \<and> fst (getIMDBId E c (item_id m') ''series'') = Some (meta_id x) \<and>
         fst (formatSeries E c m') = Some x)"
      using formatSeries_Some [OF m'(2)] presentable_formatSeries [OF m'(2)]
      by (intro conjI bexI [of _ m']) (auto simp: truthy_def)
  qed
  have l: "length (fst (format_all f ms)) = length (filter (\<lambda>m'. fst (f m') \<noteq> None) ms)"
    for f :: "raw_item \<Rightarrow> meta option \<times> event list"
    by (simp add: fst_format_all length_filter_Boolean filter_map comp_def)
  have miss: "list_all presentable (metas (fst (catalogHandler E c req)))" if "cache_miss E c req"
  proof (cases E c req rule: catalogHandler_cases)
    case (hit cached)
    with that show ?thesis by (simp add: cache_miss_def)
  next
    case (throw e evs)
    then show ?thesis by (simp add: reply_def)
  next
    case (fetched ms' evs)
    then show ?thesis using presentable_fetch_metas [OF fetched(2)] by (simp add: reply_def)
  qed
  have inv: "list_all presentable (metas (fst (catalogHandler E c req))) \<and> pages_presentable (cache_after E c req)"
    if "pages_presentable c"
  proof -
    have p: "list_all presentable (metas (fst (catalogHandler E c req)))"
    proof (cases "cache_miss E c req")
      case True
      then show ?thesis by (rule miss)
    next
      case False
      then obtain cached where h: "cache_get (clock E) (pages c) (cacheKey E c req) = Some cached"
        by (auto simp: cache_miss_def)
      then obtain t where "pages c (cacheKey E c req) = Some (cached, t)"
        by (auto simp: cache_get_def split: option.splits if_splits)
      with that have "list_all presentable cached" unfolding pages_presentable_def by blast
      then show ?thesis using catalogHandler_hit [OF h] by (simp add: reply_def)
    qed
    then show ?thesis using that
      by (auto simp: pages_presentable_def pages_cache_after split: if_splits)
  qed
  show ?thesis
    using formatMovie_None [of m E c] formatSeries_None [of m E c] a b l [of "formatMovie E c"]
      l [of "formatSeries E c"] miss inv
    by blast
qed

theorem unrepresentable_dropped_witness:
  "\<not> truthy (poster_path ((sample_movie 1)\<lparr>poster_path := None\<rparr>)) \<and>
   fst (formatMovie env_india empty_cache ((sample_movie 1)\<lparr>poster_path := None\<rparr>)) = None \<and>
   \<not> truthy (fst (getIMDBId env_no_imdb empty_cache (item_id (sample_movie 3)) ''movie'')) \<and>
   fst (formatMovie env_no_imdb empty_cache (sample_movie 3)) = None \<and>
   map meta_id (fst (format_all (formatMovie env_india empty_cache)
     [(sample_movie 1)\<lparr>poster_path := None\<rparr>, sample_movie 2])) = [''tt2''] \<and>
   map poster (fst (format_all (formatMovie env_india empty_cache)
     [(sample_movie 1)\<lparr>poster_path := None\<rparr>, sample_movie 2])) = [''https://image.tmdb.org/t/p/w500/p.jpg'']"
proof -
  have a: "\<not> truthy (poster_path ((sample_movie 1)\<lparr>poster_path := None\<rparr>))"
    by (simp add: truthy_def)
  have b: "\<not> truthy (fst (getIMDBId env_no_imdb empty_cache (item_id (sample_movie 3)) ''movie''))"
    by (simp add: getIMDBId_def env_no_imdb_def env_down_def cache_get_def empty_cache_def truthy_def)
  have g: "getIMDBId env_india empty_cache 2 ''movie'' =
      (Some ''tt2'', [FetchExternalIds ''movie'' 2, SetImdb (''movie'', 2) (Some ''tt2'') 86400])"
    by (simp add: getIMDBId_def env_india_def cache_get_def empty_cache_def truthy_def Let_def
        show_nat_2 del: show_nat.simps)
  have f: "fst (format_all (formatMovie env_india empty_cache)
     [(sample_movie 1)\<lparr>poster_path := None\<rparr>, sample_movie 2]) =
       [the (fst (formatMovie env_india empty_cache (sample_movie 2)))]"
    by (simp add: fst_format_all formatMovie_def sample_movie_def g truthy_def Let_def)
  have i: "meta_id (the (fst (formatMovie env_india empty_cache (sample_movie 2)))) = ''tt2''"
    by (simp add: formatMovie_def sample_movie_def g truthy_def Let_def)
  have p: "poster (the (fst (formatMovie env_india empty_cache (sample_movie 2)))) =
      ''https://image.tmdb.org/t/p/w500/p.jpg''"
    by (simp add: formatMovie_def sample_movie_def g truthy_def Let_def)
  show ?thesis
    using unrepresentable_dropped [of "(sample_movie 1)\<lparr>poster_path := None\<rparr>" env_india empty_cache]
      unrepresentable_dropped [of "sample_movie 3" env_no_imdb empty_cache] a b f i p
    by simp
qed

subsection \<open>C10: only non-empty lists are cached\<close>



subsection \<open>C4: the floor of the composite aggregation\<close>

text \<open>
  C4. In the loop over the regional languages of the composite catalog, the languages are
  queried in their fixed order, and the language in position \<open>i\<close> is queried only if the
  turns before it did not fail and left fewer than 25 accumulated items: the loop over the
  first \<open>i\<close> languages ends with a list shorter than 25. When the accumulated list has
  25 items or more at a language's turn, the loop ends there with that list and queries
  no further language, whatever languages remain. The composite branch of the handler
  issues the query for Hindi and then exactly the queries of this loop, started with the
  Hindi results.
\<close>

theorem regional_floor:
  "(25 \<le> length acc \<longrightarrow> regional_loop E p langs acc c = (Inr acc, [])) \<and>
   (\<forall>i < length (fetched (snd (regional_loop E p langs acc c))).
      i < length langs \<and>
      fetched (snd (regional_loop E p langs acc c)) ! i = regional_query E p (langs ! i) \<and>
      (\<exists>a. fst (regional_loop E p (take i langs) acc c) = Inr a \<and> length a < 25)) \<and>
   (\<forall>rs. list_results E (DiscoverMovie (todayIST E) ''hi'' ''IN'' ''0'' p) = Some rs \<longrightarrow>
      fetched (snd (indian_latest E c p)) =
        DiscoverMovie (todayIST E) ''hi'' ''IN'' ''0'' p #
        fetched (snd (regional_loop E p regionalLangs (case rs of None \<Rightarrow> [] | Some x \<Rightarrow> x) c)))"
  using regional_loop_turns [of _ E p langs acc c] fetched_indian_loop [of E p _ c] by simp

theorem regional_floor_witness:
  "fetched (snd (regional_loop env_india 1 regionalLangs
       (map sample_movie [1, 2, 3, 4, 5, 6, 7, 8, 9, 10]) empty_cache)) =
     [regional_query env_india 1 ''ta'', regional_query env_india 1 ''te''] \<and>
   fst (regional_loop env_india 1 (take 1 regionalLangs)
       (map sample_movie [1, 2, 3, 4, 5, 6, 7, 8, 9, 10]) empty_cache) =
     Inr (map sample_movie [1, 2, 3, 4, 5, 6, 7, 8, 9, 10, 11, 12, 13, 14, 15, 16, 17, 18]) \<and>
   fst (regional_loop env_india 1 regionalLangs
       (map sample_movie [1, 2, 3, 4, 5, 6, 7, 8, 9, 10]) empty_cache) =
     Inr (map sample_movie [1, 2, 3, 4, 5, 6, 7, 8, 9, 10, 11, 12, 13, 14, 15, 16, 17, 18,
                            21, 22, 23, 24, 25, 26, 27, 28]) \<and>
   regional_loop env_india 1 [''ml'', ''kn'', ''mr'']
       (map sample_movie [1, 2, 3, 4, 5, 6, 7, 8, 9, 10, 11, 12, 13, 14, 15, 16, 17, 18,
                          21, 22, 23, 24, 25, 26, 27, 28]) empty_cache =
     (Inr (map sample_movie [1, 2, 3, 4, 5, 6, 7, 8, 9, 10, 11, 12, 13, 14, 15, 16, 17, 18,
                             21, 22, 23, 24, 25, 26, 27, 28]), [])"
proof -
  have run: "regional_loop env_india 1 regionalLangs (map sample_movie [1, 2, 3, 4, 5, 6, 7, 8, 9, 10]) empty_cache =
     (Inr (map sample_movie [1, 2, 3, 4, 5, 6, 7, 8, 9, 10, 11, 12, 13, 14, 15, 16, 17, 18,
                             21, 22, 23, 24, 25, 26, 27, 28]),
      [Fetch (regional_query env_india 1 ''ta''),
       FetchDetail 11, SetHindi 11 True 86400, FetchDetail 12, SetHindi 12 True 86400,
       FetchDetail 13, SetHindi 13 True 86400, FetchDetail 14, SetHindi 14 True 86400,
       FetchDetail 15, SetHindi 15 True 86400, FetchDetail 16, SetHindi 16 True 86400,
       FetchDetail 17, SetHindi 17 True 86400, FetchDetail 18, SetHindi 18 True 86400,
       Fetch (regional_query env_india 1 ''te''),
       FetchDetail 21, SetHindi 21 True 86400, FetchDetail 22, SetHindi 22 True 86400,
       FetchDetail 23, SetHindi 23 True 86400, FetchDetail 24, SetHindi 24 True 86400,
       FetchDetail 25, SetHindi 25 True 86400, FetchDetail 26, SetHindi 26 True 86400,
       FetchDetail 27, SetHindi 27 True 86400, FetchDetail 28, SetHindi 28 True 86400])"
    by (simp add: regionalLangs_def fetch_list_def env_india_def india_results_def promise_all_def
        hasHindiAudio_def cache_get_def empty_cache_def dubbed_detail_def filter_by_def apply_events_def
        cache_set_def regional_query_def)
  have one: "fst (regional_loop env_india 1 (take 1 regionalLangs)
       (map sample_movie [1, 2, 3, 4, 5, 6, 7, 8, 9, 10]) empty_cache) =
     Inr (map sample_movie [1, 2, 3, 4, 5, 6, 7, 8, 9, 10, 11, 12, 13, 14, 15, 16, 17, 18])"
    by (simp add: regionalLangs_def fetch_list_def env_india_def india_results_def promise_all_def
        hasHindiAudio_def cache_get_def empty_cache_def dubbed_detail_def filter_by_def)
  show ?thesis
    using regional_floor [of "map sample_movie [1, 2, 3, 4, 5, 6, 7, 8, 9, 10, 11, 12, 13, 14, 15, 16, 17, 18,
        21, 22, 23, 24, 25, 26, 27, 28]" env_india 1 "[''ml'', ''kn'', ''mr'']" empty_cache]
      regional_floor [of "map sample_movie [1, 2, 3, 4, 5, 6, 7, 8, 9, 10]" env_india 1 regionalLangs empty_cache]
      run one
    by simp
qed

subsection \<open>C3: learning the page size\<close>

text \<open>
  C3, as the claim states it, fails when the first page is answered from the cache. After
  a request with offset 5 (page 1, fetched and stored, nothing learned since the offset is
  not zero), a request with offset 0 receives the stored first page of 17 items, learns
  nothing, and a later request with offset 17 computes page 1, not page 2.
\<close>

theorem first_page_from_cache_not_learned:
  "skip (hollywood_request 0) = 0 \<and>
   length (metas (fst (catalogHandler env_seventeen
     (cache_after env_seventeen empty_cache (hollywood_request 5)) (hollywood_request 0)))) = 17 \<and>
   pageSizeKeyBase (hollywood_request 17) = pageSizeKeyBase (hollywood_request 0) \<and>
   page env_seventeen
     (cache_after env_seventeen (cache_after env_seventeen empty_cache (hollywood_request 5))
        (hollywood_request 0))
     (hollywood_request 17) = 1"
proof -
  define c1 where "c1 = cache_after env_seventeen empty_cache (hollywood_request 5)"
  define ms where "ms = metas (fst (catalogHandler env_seventeen empty_cache (hollywood_request 5)))"
  have m5: "cache_miss env_seventeen empty_cache (hollywood_request 5)"
    by (simp add: cache_miss_def cache_get_def empty_cache_def)
  have l5: "length ms = 17"
    unfolding ms_def by (rule seventeen_handler [OF _ m5]) (simp add: empty_cache_def)
  then have ne: "ms \<noteq> []" by auto
  have k5: "cacheKey env_seventeen empty_cache (hollywood_request 5) = (''hollywood_latest'', 1)"
    by (simp add: cacheKey_def page_def pageSize_def pageSizeKeyBase_def searchQuery_def or_str_def
        cache_get_def empty_cache_def hollywood_request_def)
  have pg: "pages c1 = [(''hollywood_latest'', 1) \<mapsto> (ms, clock env_seventeen + stdTTL)]"
    using m5 ne by (simp add: c1_def pages_cache_after ms_def [symmetric] k5) (simp add: empty_cache_def)
  have ps: "page_sizes c1 = Map.empty"
    by (simp add: c1_def page_sizes_cache_after hollywood_request_def) (simp add: empty_cache_def)
  have k0: "cacheKey env_seventeen c1 (hollywood_request 0) = (''hollywood_latest'', 1)"
    by (simp add: cacheKey_def page_def pageSizeKeyBase_def searchQuery_def or_str_def hollywood_request_def)
  have hit: "cache_get (clock env_seventeen) (pages c1) (cacheKey env_seventeen c1 (hollywood_request 0)) = Some ms"
    by (simp add: k0 pg cache_get_def)
  have h: "catalogHandler env_seventeen c1 (hollywood_request 0) = (reply ms, [])"
    by (rule catalogHandler_hit [OF hit])
  have ca: "cache_after env_seventeen c1 (hollywood_request 0) = c1"
    by (simp add: cache_after_def h apply_events_def)
  have p17: "page env_seventeen c1 (hollywood_request 17) = 1"
    by (simp add: page_def pageSize_def ps cache_get_def hollywood_request_def)
  have s0: "skip (hollywood_request 0) = 0"
    by (simp add: hollywood_request_def)
  have kb: "pageSizeKeyBase (hollywood_request 17) = pageSizeKeyBase (hollywood_request 0)"
    by (simp add: pageSizeKeyBase_def searchQuery_def hollywood_request_def)
  show ?thesis
    unfolding c1_def [symmetric] ca using s0 kb p17 l5 by (simp add: h reply_def)
qed

text \<open>
  C3, amended. The handler writes the page size of a signature exactly when the request
  was not answered from the cache, its offset is zero and its result list is not empty;
  it stores the length of that list for 86400 seconds. So after a first-page response of
  17 items that the handler fetched from the upstream at offset zero, a request for the
  same signature within the 86400 seconds computes page 2 for offset 17 and page 3 for
  offset 34.
\<close>

theorem page_size_learning:
  "page_size_stores (snd (catalogHandler E c req)) =
     (if cache_miss E c req \<and> skip req = 0 \<and> metas (fst (catalogHandler E c req)) \<noteq> []
      then [(pageSizeKeyBase req, length (metas (fst (catalogHandler E c req))), 86400)] else []) \<and>
   (cache_miss E c req \<and> skip req = 0 \<and> metas (fst (catalogHandler E c req)) \<noteq> [] \<longrightarrow>
      (\<forall>E' req'. clock E' \<le> clock E + 86400 \<and> pageSizeKeyBase req' = pageSizeKeyBase req \<longrightarrow>
         pageSize E' (cache_after E c req) req' = length (metas (fst (catalogHandler E c req))))) \<and>
   (cache_miss E c req \<and> skip req = 0 \<and> length (metas (fst (catalogHandler E c req))) = 17 \<longrightarrow>
      (\<forall>E' req'. clock E' \<le> clock E + 86400 \<and> pageSizeKeyBase req' = pageSizeKeyBase req \<longrightarrow>
         (skip req' = 17 \<longrightarrow> page E' (cache_after E c req) req' = 2) \<and>
         (skip req' = 34 \<longrightarrow> page E' (cache_after E c req) req' = 3)))"
proof -
  have a: "pageSize E' (cache_after E c req) req' = length (metas (fst (catalogHandler E c req)))"
    if "cache_miss E c req" "skip req = 0" "metas (fst (catalogHandler E c req)) \<noteq> []"
      "clock E' \<le> clock E + 86400" "pageSizeKeyBase req' = pageSizeKeyBase req" for E' req'
    using that by (rule pageSize_learned)
  have b: "(skip req' = 17 \<longrightarrow> page E' (cache_after E c req) req' = 2) \<and>
         (skip req' = 34 \<longrightarrow> page E' (cache_after E c req) req' = 3)"
    if "cache_miss E c req" "skip req = 0" "length (metas (fst (catalogHandler E c req))) = 17"
      "clock E' \<le> clock E + 86400" "pageSizeKeyBase req' = pageSizeKeyBase req" for E' req'
  proof -
    from that(3) have "metas (fst (catalogHandler E c req)) \<noteq> []" by auto
    from a [OF that(1,2) this that(4,5)] that(3) have "pageSize E' (cache_after E c req) req' = 17"
      by simp
    then show ?thesis by (simp add: page_def)
  qed
  show ?thesis using handler_page_size_stores [of E c req] a b by blast
qed

theorem page_size_learning_witness:
  "cache_miss env_seventeen empty_cache (hollywood_request 0) \<and>
   skip (hollywood_request 0) = 0 \<and>
   length (metas (fst (catalogHandler env_seventeen empty_cache (hollywood_request 0)))) = 17 \<and>
   clock (env_seventeen\<lparr>clock := 50000\<rparr>) \<le> clock env_seventeen + 86400 \<and>
   pageSizeKeyBase (hollywood_request 17) = pageSizeKeyBase (hollywood_request 0) \<and>
   pageSizeKeyBase (hollywood_request 34) = pageSizeKeyBase (hollywood_request 0) \<and>
   skip (hollywood_request 17) = 17 \<and> skip (hollywood_request 34) = 34 \<and>
   page (env_seventeen\<lparr>clock := 50000\<rparr>)
     (cache_after env_seventeen empty_cache (hollywood_request 0)) (hollywood_request 17) = 2 \<and>
   page (env_seventeen\<lparr>clock := 50000\<rparr>)
     (cache_after env_seventeen empty_cache (hollywood_request 0)) (hollywood_request 34) = 3"
proof -
  have m: "cache_miss env_seventeen empty_cache (hollywood_request 0)"
    by (simp add: cache_miss_def cache_get_def empty_cache_def)
  have s: "skip (hollywood_request 0) = 0" "skip (hollywood_request 17) = 17" "skip (hollywood_request 34) = 34"
    by (simp_all add: hollywood_request_def)
  have l: "length (metas (fst (catalogHandler env_seventeen empty_cache (hollywood_request 0)))) = 17"
    by (rule seventeen_handler [OF _ m]) (simp add: empty_cache_def)
  have t: "clock (env_seventeen\<lparr>clock := 50000\<rparr>) \<le> clock env_seventeen + 86400"
    by (simp add: env_seventeen_def env_india_def)
  have k: "pageSizeKeyBase (hollywood_request 17) = pageSizeKeyBase (hollywood_request 0)"
    "pageSizeKeyBase (hollywood_request 34) = pageSizeKeyBase (hollywood_request 0)"
    by (simp_all add: pageSizeKeyBase_def searchQuery_def hollywood_request_def)
  note T = page_size_learning [of env_seventeen empty_cache "hollywood_request 0"]
  from T m s(1) l have A: "\<forall>E' req'. clock E' \<le> clock env_seventeen + 86400 \<and>
        pageSizeKeyBase req' = pageSizeKeyBase (hollywood_request 0) \<longrightarrow>
         (skip req' = 17 \<longrightarrow> page E' (cache_after env_seventeen empty_cache (hollywood_request 0)) req' = 2) \<and>
         (skip req' = 34 \<longrightarrow> page E' (cache_after env_seventeen empty_cache (hollywood_request 0)) req' = 3)"
    by blast
  from A t k(1) s(2) have p2: "page (env_seventeen\<lparr>clock := 50000\<rparr>)
     (cache_after env_seventeen empty_cache (hollywood_request 0)) (hollywood_request 17) = 2"
    by blast
  from A t k(2) s(3) have p3: "page (env_seventeen\<lparr>clock := 50000\<rparr>)
     (cache_after env_seventeen empty_cache (hollywood_request 0)) (hollywood_request 34) = 3"
    by blast
  show ?thesis using m s l t k p2 p3 by blast
qed

end
